theory Spec2Isabelle
  imports Main "HOL-Library.Monad_Syntax"
begin

section \<open>JavaScript values\<close>

text \<open>
  The program of \<^verbatim>\<open>classes.js\<close> is dynamically typed: a field of a
  \<^verbatim>\<open>Medication\<close> or of a \<^verbatim>\<open>Person\<close> holds whatever value the caller or
  the server's JSON supplied. The values that can occur are the JSON values, together
  with \<^verbatim>\<open>undefined\<close> (a missing property, a missing argument) and \<^verbatim>\<open>NaN\<close>.
  Numbers are the integers: the doubles that are not integers are left out of the model.
  An object is the list of its own properties, in insertion order, with distinct keys.
\<close>

datatype jsval =
    JUndefined
  | JNull
  | JBool bool
  | JNum int
  | JNaN
  | JStr string
  | JArr "jsval list"
  | JObj "(string \<times> jsval) list"

text \<open>The errors a statement of the program can throw. \<open>Error\<close> carries the message the
  program gave it; the messages of the errors the engine raises are engine-defined, so
  only their kind is kept: \<open>TypeError\<close> (a property read on \<^verbatim>\<open>null\<close> or
  \<^verbatim>\<open>undefined\<close>, a call of something that is not a function), \<open>RangeError\<close>
  (\<^verbatim>\<open>toISOString\<close> on an invalid date), \<open>SyntaxError\<close> (\<^verbatim>\<open>res.json()\<close> on a body
  that is not JSON) and \<open>FetchError\<close> (the rejection of \<^verbatim>\<open>fetch\<close>, with the
  message the transport gave).\<close>

datatype js_error =
    Error string
  | TypeError
  | RangeError
  | SyntaxError
  | FetchError string

subsection \<open>Decimal digits\<close>

definition digit_char :: "nat \<Rightarrow> char" where
  "digit_char d = char_of (48 + d)"

definition digit_val :: "char \<Rightarrow> nat option" where
  "digit_val c =
     (let n = (of_char c :: nat) in if 48 \<le> n \<and> n \<le> 57 then Some (n - 48) else None)"

text \<open>\<open>pad n k\<close>: the decimal digits of \<open>k\<close>, zero-padded to \<open>n\<close> places
  (\<open>k < 10 ^ n\<close>), as \<^verbatim>\<open>toISOString\<close> pads its fields.\<close>

fun pad :: "nat \<Rightarrow> nat \<Rightarrow> string" where
  "pad 0 k = []"
| "pad (Suc n) k = digit_char (k div 10 ^ n) # pad n (k mod 10 ^ n)"

fun decimal :: "nat \<Rightarrow> string" where
  "decimal k =
     (if k < 10 then [digit_char k] else decimal (k div 10) @ [digit_char (k mod 10)])"

declare decimal.simps [simp del]

text \<open>\<^verbatim>\<open>Number::toString\<close> on an integer (below \<open>10 ^ 21\<close> in magnitude, where the
  engine still prints every digit).\<close>

definition Number_toString :: "int \<Rightarrow> string" where
  "Number_toString n = (if n < 0 then ''-'' @ decimal (nat (- n)) else decimal (nat n))"

text \<open>\<^verbatim>\<open>ToString\<close>, as a template literal \<^verbatim>\<open>`${v}`\<close> applies it. An array prints its
  elements joined by commas, \<^verbatim>\<open>null\<close> and \<^verbatim>\<open>undefined\<close> elements as the empty
  string; a plain object prints as \<^verbatim>\<open>[object Object]\<close>.\<close>

fun ToString :: "jsval \<Rightarrow> string"
  and join_elements :: "jsval list \<Rightarrow> string" where
  "ToString JUndefined = ''undefined''"
| "ToString JNull = ''null''"
| "ToString (JBool b) = (if b then ''true'' else ''false'')"
| "ToString (JNum n) = Number_toString n"
| "ToString JNaN = ''NaN''"
| "ToString (JStr s) = s"
| "ToString (JArr xs) = join_elements xs"
| "ToString (JObj kvs) = ''[object Object]''"
| "join_elements [] = []"
| "join_elements (x # xs) =
     (if x = JUndefined \<or> x = JNull then [] else ToString x) @
     (if xs = [] then [] else '','' @ join_elements xs)"

text \<open>\<^verbatim>\<open>JSON.stringify\<close>, read as the JSON value its text denotes (what
  \<^verbatim>\<open>JSON.parse\<close> gives back): a property whose value is \<^verbatim>\<open>undefined\<close> is dropped,
  an \<^verbatim>\<open>undefined\<close> array element and \<^verbatim>\<open>NaN\<close> become \<^verbatim>\<open>null\<close>.\<close>

fun JSON_value :: "jsval \<Rightarrow> jsval"
  and JSON_elements :: "jsval list \<Rightarrow> jsval list"
  and JSON_properties :: "(string \<times> jsval) list \<Rightarrow> (string \<times> jsval) list" where
  "JSON_value JUndefined = JNull"
| "JSON_value JNull = JNull"
| "JSON_value (JBool b) = JBool b"
| "JSON_value (JNum n) = JNum n"
| "JSON_value JNaN = JNull"
| "JSON_value (JStr s) = JStr s"
| "JSON_value (JArr xs) = JArr (JSON_elements xs)"
| "JSON_value (JObj kvs) = JObj (JSON_properties kvs)"
| "JSON_elements [] = []"
| "JSON_elements (x # xs) = JSON_value x # JSON_elements xs"
| "JSON_properties [] = []"
| "JSON_properties ((k, v) # kvs) =
     (if v = JUndefined then JSON_properties kvs
      else (k, JSON_value v) # JSON_properties kvs)"

text \<open>A property read \<^verbatim>\<open>v.k\<close>, for the property names the program reads
  (\<^verbatim>\<open>name\<close>, \<^verbatim>\<open>medications\<close>, \<^verbatim>\<open>frequencyPerDay\<close>, \<^verbatim>\<open>taken\<close>,
  \<^verbatim>\<open>refillDate\<close>, \<^verbatim>\<open>userId\<close>): none of them is a property that arrays, strings,
  numbers or booleans inherit, so the read gives \<^verbatim>\<open>undefined\<close> there; on
  \<^verbatim>\<open>null\<close> and \<^verbatim>\<open>undefined\<close> it throws a TypeError.\<close>

fun get_prop :: "jsval \<Rightarrow> string \<Rightarrow> js_error + jsval" where
  "get_prop JUndefined k = Inl TypeError"
| "get_prop JNull k = Inl TypeError"
| "get_prop (JObj kvs) k = Inr (case map_of kvs k of None \<Rightarrow> JUndefined | Some v \<Rightarrow> v)"
| "get_prop v k = Inr JUndefined"

section \<open>Dates\<close>

text \<open>A \<^verbatim>\<open>Date\<close> object holds a time value: a whole number of milliseconds since
  1970-01-01T00:00:00Z of magnitude at most \<open>8.64 * 10 ^ 15\<close>, or \<^verbatim>\<open>NaN\<close>
  (an invalid date).\<close>

datatype jsdate = TimeValue int | InvalidDate

definition TimeClip :: "int \<Rightarrow> jsdate" where
  "TimeClip t = (if \<bar>t\<bar> \<le> 8640000000000000 then TimeValue t else InvalidDate)"

definition msPerDay :: int where
  "msPerDay = 86400000"

definition Day :: "int \<Rightarrow> int" where
  "Day t = t div msPerDay"

definition TimeWithinDay :: "int \<Rightarrow> int" where
  "TimeWithinDay t = t mod msPerDay"

definition DayFromYear :: "int \<Rightarrow> int" where
  "DayFromYear y =
     365 * (y - 1970) + (y - 1969) div 4 - (y - 1901) div 100 + (y - 1601) div 400"

definition InLeapYear :: "int \<Rightarrow> bool" where
  "InLeapYear y = (y mod 400 = 0 \<or> (y mod 4 = 0 \<and> y mod 100 \<noteq> 0))"

text \<open>The year of day number \<open>d\<close>: the largest \<open>y\<close> with \<open>DayFromYear y \<le> d\<close>
  (lemma \<open>YearFromDay_bounds\<close> below), computed from an estimate that is off by one
  year at most.\<close>

definition YearFromDay :: "int \<Rightarrow> int" where
  "YearFromDay d =
     (let y = 1970 + (400 * d) div 146097
      in if d < DayFromYear y then y - 1
         else if DayFromYear (y + 1) \<le> d then y + 1
         else y)"

text \<open>\<open>month_start leap m\<close>: the day within the year on which month \<open>m\<close> (0 = January,
  12 = the next January) starts.\<close>

definition month_start :: "bool \<Rightarrow> nat \<Rightarrow> int" where
  "month_start leap m =
     [0, 31, 59, 90, 120, 151, 181, 212, 243, 273, 304, 334, 365] ! m +
     (if leap \<and> 2 \<le> m then 1 else 0)"

definition MonthFromDay :: "bool \<Rightarrow> int \<Rightarrow> nat" where
  "MonthFromDay leap dy =
     (if dy < month_start leap 1 then 0
      else if dy < month_start leap 2 then 1
      else if dy < month_start leap 3 then 2
      else if dy < month_start leap 4 then 3
      else if dy < month_start leap 5 then 4
      else if dy < month_start leap 6 then 5
      else if dy < month_start leap 7 then 6
      else if dy < month_start leap 8 then 7
      else if dy < month_start leap 9 then 8
      else if dy < month_start leap 10 then 9
      else if dy < month_start leap 11 then 10
      else 11)"

definition YearFromTime :: "int \<Rightarrow> int" where
  "YearFromTime t = YearFromDay (Day t)"

definition DayWithinYear :: "int \<Rightarrow> int" where
  "DayWithinYear t = Day t - DayFromYear (YearFromTime t)"

definition MonthFromTime :: "int \<Rightarrow> nat" where
  "MonthFromTime t = MonthFromDay (InLeapYear (YearFromTime t)) (DayWithinYear t)"

definition DateFromTime :: "int \<Rightarrow> int" where
  "DateFromTime t =
     DayWithinYear t - month_start (InLeapYear (YearFromTime t)) (MonthFromTime t) + 1"

definition HourFromTime :: "int \<Rightarrow> int" where
  "HourFromTime t = TimeWithinDay t div 3600000"

definition MinFromTime :: "int \<Rightarrow> int" where
  "MinFromTime t = (TimeWithinDay t div 60000) mod 60"

definition SecFromTime :: "int \<Rightarrow> int" where
  "SecFromTime t = (TimeWithinDay t div 1000) mod 60"

definition msFromTime :: "int \<Rightarrow> int" where
  "msFromTime t = TimeWithinDay t mod 1000"

definition year_string :: "int \<Rightarrow> string" where
  "year_string y =
     (if 0 \<le> y \<and> y \<le> 9999 then pad 4 (nat y)
      else (if y < 0 then ''-'' else ''+'') @ pad 6 (nat \<bar>y\<bar>))"

text \<open>\<^verbatim>\<open>Date.prototype.toISOString\<close>: \<^verbatim>\<open>YYYY-MM-DDTHH:mm:ss.sssZ\<close>, the year with a
  sign and six digits outside 0..9999; a RangeError on an invalid date.\<close>

definition toISOString :: "jsdate \<Rightarrow> js_error + string" where
  "toISOString d =
     (case d of
        InvalidDate \<Rightarrow> Inl RangeError
      | TimeValue t \<Rightarrow>
          Inr (year_string (YearFromTime t) @ ''-'' @ pad 2 (MonthFromTime t + 1) @ ''-'' @
               pad 2 (nat (DateFromTime t)) @ ''T'' @ pad 2 (nat (HourFromTime t)) @ '':'' @
               pad 2 (nat (MinFromTime t)) @ '':'' @ pad 2 (nat (SecFromTime t)) @ ''.'' @
               pad 3 (nat (msFromTime t)) @ ''Z''))"

subsection \<open>Parsing a date string\<close>

definition expect :: "char \<Rightarrow> string \<Rightarrow> string option" where
  "expect c s = (case s of [] \<Rightarrow> None | x # r \<Rightarrow> if x = c then Some r else None)"

text \<open>\<open>digits n acc s\<close> reads exactly \<open>n\<close> decimal digits from the front of \<open>s\<close>.\<close>

fun digits :: "nat \<Rightarrow> nat \<Rightarrow> string \<Rightarrow> (nat \<times> string) option" where
  "digits 0 acc s = Some (acc, s)"
| "digits (Suc n) acc [] = None"
| "digits (Suc n) acc (c # s) =
     (case digit_val c of None \<Rightarrow> None | Some d \<Rightarrow> digits n (acc * 10 + d) s)"

definition parse_year :: "string \<Rightarrow> (int \<times> string) option" where
  "parse_year s =
     (case s of
        [] \<Rightarrow> None
      | c # r \<Rightarrow>
          if c = CHR ''+'' then
            (case digits 6 0 r of None \<Rightarrow> None | Some (y, r') \<Rightarrow> Some (int y, r'))
          else if c = CHR ''-'' then
            (case digits 6 0 r of
               None \<Rightarrow> None
             | Some (y, r') \<Rightarrow> if y = 0 then None else Some (- int y, r'))
          else
            (case digits 4 0 s of None \<Rightarrow> None | Some (y, r') \<Rightarrow> Some (int y, r')))"

definition MakeTime :: "nat \<Rightarrow> nat \<Rightarrow> nat \<Rightarrow> nat \<Rightarrow> int" where
  "MakeTime h mi sec ms = int h * 3600000 + int mi * 60000 + int sec * 1000 + int ms"

definition MakeDay :: "int \<Rightarrow> nat \<Rightarrow> nat \<Rightarrow> int" where
  "MakeDay y mo d = DayFromYear y + month_start (InLeapYear y) (mo - 1) + int d - 1"

definition MakeDate :: "int \<Rightarrow> int \<Rightarrow> int" where
  "MakeDate dy tm = dy * msPerDay + tm"

definition DaysInMonth :: "int \<Rightarrow> nat \<Rightarrow> int" where
  "DaysInMonth y mo = month_start (InLeapYear y) mo - month_start (InLeapYear y) (mo - 1)"

text \<open>The complete UTC form of the Date Time String Format, which is what
  \<^verbatim>\<open>toISOString\<close> emits: \<^verbatim>\<open>YYYY-MM-DDTHH:mm:ss.sssZ\<close> or, with an expanded year,
  \<^verbatim>\<open>+YYYYYY-MM-DDTHH:mm:ss.sssZ\<close> and \<^verbatim>\<open>-YYYYYY-...\<close> (not \<^verbatim>\<open>-000000\<close>), with
  every field in its range. \<open>None\<close> on every other string.\<close>

definition parse_iso :: "string \<Rightarrow> int option" where
  "parse_iso s = do {
     (y, r) \<leftarrow> parse_year s;
     r \<leftarrow> expect CHR ''-'' r;
     (mo, r) \<leftarrow> digits 2 0 r;
     r \<leftarrow> expect CHR ''-'' r;
     (d, r) \<leftarrow> digits 2 0 r;
     r \<leftarrow> expect CHR ''T'' r;
     (h, r) \<leftarrow> digits 2 0 r;
     r \<leftarrow> expect CHR '':'' r;
     (mi, r) \<leftarrow> digits 2 0 r;
     r \<leftarrow> expect CHR '':'' r;
     (sec, r) \<leftarrow> digits 2 0 r;
     r \<leftarrow> expect CHR ''.'' r;
     (ms, r) \<leftarrow> digits 3 0 r;
     r \<leftarrow> expect CHR ''Z'' r;
     if r = [] \<and> 1 \<le> mo \<and> mo \<le> 12 \<and> 1 \<le> d \<and> int d \<le> DaysInMonth y mo \<and>
        h \<le> 23 \<and> mi \<le> 59 \<and> sec \<le> 59
     then Some (MakeDate (MakeDay y mo d) (MakeTime h mi sec ms))
     else None
   }"

text \<open>What the program takes from its engine beyond the language itself: the result of
  \<^verbatim>\<open>Date.parse\<close> on a string outside the format above (other forms of the format,
  and the engine's own fallback formats; implementation-defined), the clock read by
  \<^verbatim>\<open>new Date()\<close>, and \<^verbatim>\<open>toDateString\<close>, which renders in the local time zone.\<close>

record engine =
  Date_parse_other :: "string \<Rightarrow> jsdate"
  Date_now :: jsdate
  toDateString :: "jsdate \<Rightarrow> string"

definition Date_parse :: "engine \<Rightarrow> string \<Rightarrow> jsdate" where
  "Date_parse eng s =
     (case parse_iso s of Some t \<Rightarrow> TimeClip t | None \<Rightarrow> Date_parse_other eng s)"

text \<open>\<^verbatim>\<open>new Date(v)\<close> for a value \<open>v\<close> that is not a Date object: a string is parsed,
  an array or object is first converted to a string, every other value is converted to a
  number.\<close>

fun new_Date :: "engine \<Rightarrow> jsval \<Rightarrow> jsdate" where
  "new_Date eng JUndefined = InvalidDate"
| "new_Date eng JNull = TimeValue 0"
| "new_Date eng (JBool b) = TimeValue (if b then 1 else 0)"
| "new_Date eng (JNum n) = TimeClip n"
| "new_Date eng JNaN = InvalidDate"
| "new_Date eng (JStr s) = Date_parse eng s"
| "new_Date eng (JArr xs) = Date_parse eng (ToString (JArr xs))"
| "new_Date eng (JObj kvs) = Date_parse eng (ToString (JObj kvs))"

section \<open>The Medication class\<close>

record Medication =
  name :: jsval
  frequencyPerDay :: jsval
  taken :: jsval
  refillDate :: jsdate

text \<open>The fourth argument of the constructor is a Date object or any other value.\<close>

datatype date_arg = DateObject jsdate | Value jsval

text \<open>\<^verbatim>\<open>constructor(name, frequencyPerDay, taken = false, refillDate = new Date())\<close>: a
  default replaces an argument that is \<^verbatim>\<open>undefined\<close>; a refill date that is not a
  Date object goes through \<^verbatim>\<open>new Date(refillDate)\<close>.\<close>

definition new_Medication :: "engine \<Rightarrow> jsval \<Rightarrow> jsval \<Rightarrow> jsval \<Rightarrow> date_arg \<Rightarrow> Medication" where
  "new_Medication eng nm freq tk refill =
     \<lparr> Medication.name = nm,
       frequencyPerDay = freq,
       taken = (if tk = JUndefined then JBool False else tk),
       refillDate =
         (case refill of
            DateObject d \<Rightarrow> d
          | Value v \<Rightarrow> if v = JUndefined then Date_now eng else new_Date eng v) \<rparr>"

definition markAsTaken :: "Medication \<Rightarrow> Medication" where
  "markAsTaken m = m\<lparr>taken := JBool True\<rparr>"

definition resetTakenStatus :: "Medication \<Rightarrow> Medication" where
  "resetTakenStatus m = m\<lparr>taken := JBool False\<rparr>"

section \<open>The Person class\<close>

record Person =
  name :: jsval
  medications :: "Medication list"

section \<open>Requests, responses and the trace of effects\<close>

record request =
  http_method :: string
  url :: string
  headers :: "(string \<times> string) list"
  body :: "jsval option"

text \<open>A response: \<^verbatim>\<open>res.ok\<close>, \<^verbatim>\<open>res.status\<close>, and what \<^verbatim>\<open>res.json()\<close> gives
  (\<open>None\<close> when the body is not JSON and \<^verbatim>\<open>res.json()\<close> rejects).\<close>

record response =
  ok :: bool
  status :: int
  json_body :: "jsval option"

text \<open>\<^verbatim>\<open>fetch\<close> resolves with a response, whatever its status, or rejects when the
  request never completes.\<close>

datatype fetch_result = Resolved response | Rejected string

type_synonym network = "request \<Rightarrow> fetch_result"

text \<open>What an operation does besides changing the state, in order: console output and
  requests. \<open>ConsoleError label e\<close> is \<^verbatim>\<open>console.error(label, e.message)\<close>.\<close>

datatype event =
    ConsoleWarn string
  | ConsoleLog string
  | ConsoleLogPeople string "Person list"
  | ConsoleError string js_error
  | Fetch request

text \<open>How a call ends: it returns (an async function: its promise resolves), or it throws
  (its promise rejects).\<close>

datatype completion = Returned | Thrown js_error

definition new_Person :: "jsval \<Rightarrow> Person" where
  "new_Person nm = \<lparr> Person.name = nm, medications = [] \<rparr>"

definition addMedication :: "Medication \<Rightarrow> Person \<Rightarrow> Person \<times> event list" where
  "addMedication med p =
     (if length (medications p) \<ge> 5
      then (p, [ConsoleWarn (ToString (Person.name p) @ '' already has 5 medications.'')])
      else (p\<lparr>medications := medications p @ [med]\<rparr>, []))"

definition medication_line :: "engine \<Rightarrow> nat \<Rightarrow> Medication \<Rightarrow> event" where
  "medication_line eng i m =
     ConsoleLog (Number_toString (int i + 1) @ ''. '' @ ToString (Medication.name m) @ '' | '' @
       ToString (frequencyPerDay m) @ ''/day | Taken: '' @ ToString (taken m) @
       '' | Refill: '' @ toDateString eng (refillDate m))"

definition listMedications :: "engine \<Rightarrow> Person \<Rightarrow> event list" where
  "listMedications eng p =
     ConsoleLog (''Medications for '' @ ToString (Person.name p) @ '':'') #
     map (\<lambda>(i, m). medication_line eng i m) (enumerate 0 (medications p))"

section \<open>The UserManager class\<close>

record UserManager =
  apiBaseUrl :: string
  people :: "Person list"

definition new_UserManager :: "string \<Rightarrow> UserManager" where
  "new_UserManager base = \<lparr> apiBaseUrl = base, people = [] \<rparr>"

subsection \<open>savePersonToServer\<close>

definition medication_payload :: "Medication \<Rightarrow> js_error + jsval" where
  "medication_payload m =
     (case toISOString (refillDate m) of
        Inl e \<Rightarrow> Inl e
      | Inr str \<Rightarrow>
          Inr (JObj [(''name'', Medication.name m),
                     (''frequencyPerDay'', frequencyPerDay m),
                     (''taken'', taken m),
                     (''refillDate'', JStr str)]))"

text \<open>\<^verbatim>\<open>person.medications.map(m => ({...}))\<close>: the first callback that throws ends
  the map.\<close>

fun medication_payloads :: "Medication list \<Rightarrow> js_error + jsval list" where
  "medication_payloads [] = Inr []"
| "medication_payloads (m # ms) =
     (case medication_payload m of
        Inl e \<Rightarrow> Inl e
      | Inr v \<Rightarrow> (case medication_payloads ms of Inl e \<Rightarrow> Inl e | Inr vs \<Rightarrow> Inr (v # vs)))"

text \<open>The argument of \<^verbatim>\<open>JSON.stringify\<close> in \<^verbatim>\<open>savePersonToServer\<close>.\<close>

definition person_payload :: "Person \<Rightarrow> js_error + jsval" where
  "person_payload person =
     (case medication_payloads (medications person) of
        Inl e \<Rightarrow> Inl e
      | Inr vs \<Rightarrow> Inr (JObj [(''name'', Person.name person), (''medications'', JArr vs)]))"

definition users_url :: "UserManager \<Rightarrow> string" where
  "users_url um = apiBaseUrl um @ ''/users''"

definition post_request :: "UserManager \<Rightarrow> jsval \<Rightarrow> request" where
  "post_request um payload =
     \<lparr> http_method = ''POST'', url = users_url um,
       headers = [(''Content-Type'', ''application/json'')],
       body = Some (JSON_value payload) \<rparr>"

text \<open>The \<^verbatim>\<open>try\<close> block of \<^verbatim>\<open>savePersonToServer\<close>: how it ends, and its trace.\<close>

definition savePersonToServer_try ::
    "network \<Rightarrow> Person \<Rightarrow> UserManager \<Rightarrow> completion \<times> event list" where
  "savePersonToServer_try net person um =
     (case person_payload person of
        Inl e \<Rightarrow> (Thrown e, [])
      | Inr payload \<Rightarrow>
          (let req = post_request um payload in
           case net req of
             Rejected msg \<Rightarrow> (Thrown (FetchError msg), [Fetch req])
           | Resolved res \<Rightarrow>
               if \<not> ok res then
                 (Thrown (Error (''Error saving person: '' @ Number_toString (status res))),
                  [Fetch req])
               else
                 (case json_body res of
                    None \<Rightarrow> (Thrown SyntaxError, [Fetch req])
                  | Some data \<Rightarrow>
                      (case get_prop data ''userId'' of
                         Inl e \<Rightarrow> (Thrown e, [Fetch req])
                       | Inr uid \<Rightarrow>
                           (Returned,
                            [Fetch req,
                             ConsoleLog (''Saved '' @ ToString (Person.name person) @
                               '' (User ID: '' @
                               ToString (if uid = JUndefined \<or> uid = JNull then JStr ''N/A''
                                         else uid) @ '')'')])))))"

definition savePersonToServer ::
    "network \<Rightarrow> Person \<Rightarrow> UserManager \<Rightarrow> completion \<times> UserManager \<times> event list" where
  "savePersonToServer net person um =
     (case savePersonToServer_try net person um of
        (Thrown err, evs) \<Rightarrow> (Returned, um, evs @ [ConsoleError ''Failed to save user:'' err])
      | (Returned, evs) \<Rightarrow> (Returned, um, evs))"

subsection \<open>addPerson\<close>

definition addPerson ::
    "network \<Rightarrow> Person \<Rightarrow> UserManager \<Rightarrow> completion \<times> UserManager \<times> event list" where
  "addPerson net person um =
     (if length (people um) \<ge> 5
      then (Returned, um, [ConsoleWarn ''Cannot add more than 5 people.''])
      else savePersonToServer net person (um\<lparr>people := people um @ [person]\<rparr>))"

subsection \<open>loadAllPeople\<close>

text \<open>\<^verbatim>\<open>new Medication(m.name, m.frequencyPerDay, m.taken, new Date(m.refillDate))\<close>.\<close>

definition medication_of_record :: "engine \<Rightarrow> jsval \<Rightarrow> js_error + Medication" where
  "medication_of_record eng m =
     (case get_prop m ''name'' of
        Inl e \<Rightarrow> Inl e
      | Inr nm \<Rightarrow>
     (case get_prop m ''frequencyPerDay'' of
        Inl e \<Rightarrow> Inl e
      | Inr freq \<Rightarrow>
     (case get_prop m ''taken'' of
        Inl e \<Rightarrow> Inl e
      | Inr tk \<Rightarrow>
     (case get_prop m ''refillDate'' of
        Inl e \<Rightarrow> Inl e
      | Inr rd \<Rightarrow> Inr (new_Medication eng nm freq tk (DateObject (new_Date eng rd)))))))"

text \<open>\<^verbatim>\<open>p.medications.forEach(m => { person.addMedication(new Medication(...)) })\<close>:
  the person so far, the records left; a callback that throws ends the loop, the
  warnings emitted before it stay emitted.\<close>

fun attach_medications ::
    "engine \<Rightarrow> jsval list \<Rightarrow> Person \<Rightarrow> (js_error + Person) \<times> event list" where
  "attach_medications eng [] person = (Inr person, [])"
| "attach_medications eng (m # ms) person =
     (case medication_of_record eng m of
        Inl e \<Rightarrow> (Inl e, [])
      | Inr med \<Rightarrow>
          (case addMedication med person of
             (person', evs) \<Rightarrow>
               (case attach_medications eng ms person' of
                  (r, evs') \<Rightarrow> (r, evs @ evs'))))"

text \<open>The callback of \<^verbatim>\<open>data.map\<close>. \<^verbatim>\<open>forEach\<close> is a function on arrays only:
  calling it on anything else is a TypeError.\<close>

definition person_of_record :: "engine \<Rightarrow> jsval \<Rightarrow> (js_error + Person) \<times> event list" where
  "person_of_record eng p =
     (case get_prop p ''name'' of
        Inl e \<Rightarrow> (Inl e, [])
      | Inr nm \<Rightarrow>
          (case get_prop p ''medications'' of
             Inl e \<Rightarrow> (Inl e, [])
           | Inr (JArr ms) \<Rightarrow> attach_medications eng ms (new_Person nm)
           | Inr _ \<Rightarrow> (Inl TypeError, [])))"

fun people_of_records :: "engine \<Rightarrow> jsval list \<Rightarrow> (js_error + Person list) \<times> event list" where
  "people_of_records eng [] = (Inr [], [])"
| "people_of_records eng (p # ps) =
     (case person_of_record eng p of
        (Inl e, evs) \<Rightarrow> (Inl e, evs)
      | (Inr person, evs) \<Rightarrow>
          (case people_of_records eng ps of
             (Inl e, evs') \<Rightarrow> (Inl e, evs @ evs')
           | (Inr persons, evs') \<Rightarrow> (Inr (person # persons), evs @ evs')))"

definition get_request :: "UserManager \<Rightarrow> request" where
  "get_request um = \<lparr> http_method = ''GET'', url = users_url um, headers = [], body = None \<rparr>"

text \<open>The \<^verbatim>\<open>try\<close> block of \<^verbatim>\<open>loadAllPeople\<close>. \<^verbatim>\<open>map\<close> is a function on arrays
  only. The assignment to \<^verbatim>\<open>this.people\<close> is the block's only write to the state, after
  \<^verbatim>\<open>data.map\<close> has returned.\<close>

definition loadAllPeople_try ::
    "engine \<Rightarrow> network \<Rightarrow> UserManager \<Rightarrow> completion \<times> UserManager \<times> event list" where
  "loadAllPeople_try eng net um =
     (let req = get_request um in
      case net req of
        Rejected msg \<Rightarrow> (Thrown (FetchError msg), um, [Fetch req])
      | Resolved res \<Rightarrow>
          if \<not> ok res then
            (Thrown (Error (''Error loading data: '' @ Number_toString (status res))), um,
             [Fetch req])
          else
            (case json_body res of
               None \<Rightarrow> (Thrown SyntaxError, um, [Fetch req])
             | Some (JArr recs) \<Rightarrow>
                 (case people_of_records eng recs of
                    (Inl e, evs) \<Rightarrow> (Thrown e, um, Fetch req # evs)
                  | (Inr persons, evs) \<Rightarrow>
                      (Returned, um\<lparr>people := persons\<rparr>,
                       Fetch req # evs @ [ConsoleLogPeople ''Users loaded from API:'' persons]))
             | Some _ \<Rightarrow> (Thrown TypeError, um, [Fetch req])))"

definition loadAllPeople ::
    "engine \<Rightarrow> network \<Rightarrow> UserManager \<Rightarrow> completion \<times> UserManager \<times> event list" where
  "loadAllPeople eng net um =
     (case loadAllPeople_try eng net um of
        (Thrown err, um', evs) \<Rightarrow>
          (Returned, um', evs @ [ConsoleError ''Failed to load users:'' err])
      | (Returned, um', evs) \<Rightarrow> (Returned, um', evs))"

subsection \<open>clearAllDataOnServer and listAll\<close>

definition delete_request :: "UserManager \<Rightarrow> request" where
  "delete_request um =
     \<lparr> http_method = ''DELETE'', url = users_url um, headers = [], body = None \<rparr>"

definition clearAllDataOnServer ::
    "network \<Rightarrow> UserManager \<Rightarrow> completion \<times> UserManager \<times> event list" where
  "clearAllDataOnServer net um =
     (let req = delete_request um in
      case net req of
        Rejected msg \<Rightarrow>
          (Returned, um, [Fetch req, ConsoleError ''Failed to clear data:'' (FetchError msg)])
      | Resolved res \<Rightarrow>
          (Returned, um\<lparr>people := []\<rparr>,
           [Fetch req, ConsoleLog ''All user data cleared on server'']))"

definition listAll :: "engine \<Rightarrow> UserManager \<Rightarrow> completion \<times> UserManager \<times> event list" where
  "listAll eng um = (Returned, um, concat (map (listMedications eng) (people um)))"

section \<open>Call sequences, record shapes and example data\<close>


fun addPerson_calls ::
    "(network \<times> Person) list \<Rightarrow> UserManager \<Rightarrow>
     UserManager \<times> (completion \<times> event list) list" where
  "addPerson_calls [] um = (um, [])"
| "addPerson_calls ((net, person) # cs) um =
     (case addPerson net person um of
        (c, um', evs) \<Rightarrow>
          (case addPerson_calls cs um' of (um'', rs) \<Rightarrow> (um'', (c, evs) # rs)))"

definition is_fetch :: "event \<Rightarrow> bool" where
  "is_fetch e = (case e of Fetch r \<Rightarrow> True | _ \<Rightarrow> False)"

definition medications_full_warning :: "jsval \<Rightarrow> event" where
  "medications_full_warning nm = ConsoleWarn (ToString nm @ '' already has 5 medications.'')"

text \<open>A person-shaped record of a read response: an object whose \<^verbatim>\<open>medications\<close> is an
  array of objects. \<open>record_name\<close> and \<open>record_medications\<close> read its two properties.\<close>

fun is_object :: "jsval \<Rightarrow> bool" where
  "is_object (JObj kvs) = True"
| "is_object v = False"

definition record_name :: "jsval \<Rightarrow> jsval" where
  "record_name p = (case get_prop p ''name'' of Inr v \<Rightarrow> v | Inl e \<Rightarrow> JUndefined)"

definition record_medications :: "jsval \<Rightarrow> jsval list" where
  "record_medications p = (case get_prop p ''medications'' of Inr (JArr ms) \<Rightarrow> ms | _ \<Rightarrow> [])"

definition person_shaped :: "jsval \<Rightarrow> bool" where
  "person_shaped p =
     (is_object p \<and>
      (case get_prop p ''medications'' of
         Inr (JArr ms) \<Rightarrow> list_all is_object ms
       | _ \<Rightarrow> False))"

text \<open>The warnings a record with more than 5 medications causes: one per excess entry.\<close>

definition excess_warnings :: "jsval \<Rightarrow> event list" where
  "excess_warnings p =
     replicate (length (record_medications p) - 5) (medications_full_warning (record_name p))"

text \<open>The values that a write payload carries unchanged. \<open>is_JSON v\<close>: \<open>v\<close> is a JSON
  value, with no \<^verbatim>\<open>undefined\<close> and no \<^verbatim>\<open>NaN\<close> anywhere inside. A property whose
  value is \<^verbatim>\<open>undefined\<close> is dropped from the payload and reads back as
  \<^verbatim>\<open>undefined\<close>, so it survives too; but the constructor of \<^verbatim>\<open>Medication\<close>
  replaces an \<^verbatim>\<open>undefined\<close> \<^verbatim>\<open>taken\<close> by \<^verbatim>\<open>false\<close>. A valid date holds a time
  value in the range of \<^verbatim>\<open>Date\<close>.\<close>

fun is_JSON :: "jsval \<Rightarrow> bool"
  and are_JSON :: "jsval list \<Rightarrow> bool"
  and properties_JSON :: "(string \<times> jsval) list \<Rightarrow> bool" where
  "is_JSON JUndefined = False"
| "is_JSON JNull = True"
| "is_JSON (JBool b) = True"
| "is_JSON (JNum n) = True"
| "is_JSON JNaN = False"
| "is_JSON (JStr s) = True"
| "is_JSON (JArr xs) = are_JSON xs"
| "is_JSON (JObj kvs) = properties_JSON kvs"
| "are_JSON [] = True"
| "are_JSON (x # xs) = (is_JSON x \<and> are_JSON xs)"
| "properties_JSON [] = True"
| "properties_JSON ((k, v) # kvs) = (is_JSON v \<and> properties_JSON kvs)"

definition survives_JSON :: "jsval \<Rightarrow> bool" where
  "survives_JSON v = (v = JUndefined \<or> is_JSON v)"

definition valid_Date :: "jsdate \<Rightarrow> bool" where
  "valid_Date d = (case d of TimeValue t \<Rightarrow> \<bar>t\<bar> \<le> 8640000000000000 | InvalidDate \<Rightarrow> False)"

definition storable_medication :: "Medication \<Rightarrow> bool" where
  "storable_medication m =
     (survives_JSON (Medication.name m) \<and> survives_JSON (frequencyPerDay m) \<and>
      is_JSON (taken m) \<and> valid_Date (refillDate m))"

definition storable_person :: "Person \<Rightarrow> bool" where
  "storable_person p =
     (survives_JSON (Person.name p) \<and> length (medications p) \<le> 5 \<and>
      list_all storable_medication (medications p))"

subsection \<open>Example data\<close>

definition example_engine :: engine where
  "example_engine =
     \<lparr> Date_parse_other = (\<lambda>s. InvalidDate), Date_now = TimeValue 1704067200000,
       toDateString = (\<lambda>d. ''Mon Jan 01 2024'') \<rparr>"

definition example_medication :: "string \<Rightarrow> int \<Rightarrow> Medication" where
  "example_medication s n =
     \<lparr> Medication.name = JStr s, frequencyPerDay = JNum n, taken = JBool False,
       refillDate = TimeValue 1704067200000 \<rparr>"

definition example_person :: "string \<Rightarrow> Person" where
  "example_person s = \<lparr> Person.name = JStr s, medications = [] \<rparr>"


definition example_person_record :: "string \<Rightarrow> jsval list \<Rightarrow> jsval" where
  "example_person_record s ms = JObj [(''name'', JStr s), (''medications'', JArr ms)]"

definition respond_json :: "jsval \<Rightarrow> network" where
  "respond_json v = (\<lambda>req. Resolved \<lparr> ok = True, status = 200, json_body = Some v \<rparr>)"

definition respond_status :: "int \<Rightarrow> network" where
  "respond_status n = (\<lambda>req. Resolved \<lparr> ok = False, status = n, json_body = None \<rparr>)"

definition offline :: network where
  "offline = (\<lambda>req. Rejected ''Failed to fetch'')"

definition example_six_records :: "jsval list" where
  "example_six_records =
     map (\<lambda>s. example_person_record s []) [''A'', ''B'', ''C'', ''D'', ''E'', ''F'']"


definition example_person_invalid_refill :: Person where
  "example_person_invalid_refill =
     \<lparr> Person.name = JStr ''Alex'',
       medications =
         [new_Medication example_engine (JStr ''Aspirin'') (JNum 2) JUndefined
            (Value (JStr ''soon''))] \<rparr>"

definition example_stored_person :: Person where
  "example_stored_person =
     \<lparr> Person.name = JStr ''Sam'', medications = [example_medication ''X'' 1] \<rparr>"

section \<open>Person: the medication list\<close>




section \<open>UserManager: adding and saving\<close>

lemma savePersonToServer_returns:
  "fst (savePersonToServer net person um) = Returned"
  by (simp add: savePersonToServer_def split: prod.splits completion.splits)

lemma savePersonToServer_state:
  "fst (snd (savePersonToServer net person um)) = um"
  by (simp add: savePersonToServer_def split: prod.splits completion.splits)

lemma savePersonToServer_caught:
  "savePersonToServer_try net person um = (Thrown e, evs) \<Longrightarrow>
   savePersonToServer net person um =
     (Returned, um, evs @ [ConsoleError ''Failed to save user:'' e])"
  by (simp add: savePersonToServer_def)

lemma addPerson_below_cap:
  "length (people um) < 5 \<Longrightarrow>
   addPerson net person um =
     savePersonToServer net person (um\<lparr>people := people um @ [person]\<rparr>)"
  by (simp add: addPerson_def)

lemma addPerson_at_cap:
  "length (people um) \<ge> 5 \<Longrightarrow>
   addPerson net person um = (Returned, um, [ConsoleWarn ''Cannot add more than 5 people.''])"
  by (simp add: addPerson_def)

lemma addPerson_returns:
  "fst (addPerson net person um) = Returned"
  by (cases "length (people um) < 5")
    (simp_all add: addPerson_below_cap addPerson_at_cap savePersonToServer_returns)

lemma addPerson_calls_general:
  "length (people um) \<le> 5 \<Longrightarrow>
   fst (addPerson_calls cs um) = um\<lparr>people := take 5 (people um @ map snd cs)\<rparr> \<and>
   length (snd (addPerson_calls cs um)) = length cs \<and>
   drop (5 - length (people um)) (snd (addPerson_calls cs um)) =
     replicate (length cs - (5 - length (people um)))
       (Returned, [ConsoleWarn ''Cannot add more than 5 people.''])"
proof (induction cs arbitrary: um)
  case Nil
  then show ?case by simp
next
  case (Cons c cs)
  obtain net person where c: "c = (net, person)" by (cases c)
  show ?case
  proof (cases "length (people um) = 5")
    case True
    then have step: "addPerson net person um =
        (Returned, um, [ConsoleWarn ''Cannot add more than 5 people.''])"
      by (simp add: addPerson_at_cap)
    from True Cons.IH [of um] show ?thesis
      by (auto simp: c step split: prod.splits)
  next
    case False
    with Cons.prems have lt: "length (people um) < 5" by simp
    define um' where "um' = um\<lparr>people := people um @ [person]\<rparr>"
    obtain evs where step: "addPerson net person um = (Returned, um', evs)"
      using savePersonToServer_returns [of net person um']
        savePersonToServer_state [of net person um'] addPerson_below_cap [OF lt, of net person]
      unfolding um'_def
      by (cases "savePersonToServer net person (um\<lparr>people := people um @ [person]\<rparr>)") auto
    have len: "length (people um') \<le> 5" using lt by (simp add: um'_def)
    have d: "5 - length (people um) = Suc (5 - length (people um'))"
      using lt by (simp add: um'_def)
    from Cons.IH [OF len] show ?thesis
      by (auto simp: c step d um'_def split: prod.splits)
  qed
qed

text \<open>
  Claim C9. Calls of \<^verbatim>\<open>addPerson\<close> on a new manager, in sequence, whatever the network
  does at each call: the manager ends with the first five persons given, so after at
  most five calls the local count is the number of calls; every call past the fifth
  leaves the manager as it was, warns, and sends no request. Each call is taken whole,
  one after the other: the check and the append come before the call's first
  \<^verbatim>\<open>await\<close>, and nothing after it writes to \<^verbatim>\<open>people\<close>.
\<close>

theorem addPerson_sequence:
  "fst (addPerson_calls cs (new_UserManager base)) =
     \<lparr>apiBaseUrl = base, people = take 5 (map snd cs)\<rparr>
   \<and> (length cs \<le> 5 \<longrightarrow>
        length (people (fst (addPerson_calls cs (new_UserManager base)))) = length cs)
   \<and> drop 5 (snd (addPerson_calls cs (new_UserManager base))) =
        replicate (length cs - 5) (Returned, [ConsoleWarn ''Cannot add more than 5 people.''])
   \<and> (length (people um) \<ge> 5 \<longrightarrow>
        addPerson net person um =
          (Returned, um, [ConsoleWarn ''Cannot add more than 5 people.'']) \<and>
        \<not> list_ex is_fetch (snd (snd (addPerson net person um))))"
proof -
  have "length (people (new_UserManager base)) \<le> 5" by (simp add: new_UserManager_def)
  from addPerson_calls_general [OF this, of cs]
  have "fst (addPerson_calls cs (new_UserManager base)) =
          \<lparr>apiBaseUrl = base, people = take 5 (map snd cs)\<rparr>"
    and "drop 5 (snd (addPerson_calls cs (new_UserManager base))) =
        replicate (length cs - 5) (Returned, [ConsoleWarn ''Cannot add more than 5 people.''])"
    by (simp_all add: new_UserManager_def)
  then show ?thesis
    by (simp add: addPerson_at_cap is_fetch_def)
qed

theorem addPerson_sequence_witness:
  "fst (addPerson_calls
      [(offline, example_person ''A''), (respond_status 500, example_person ''B''),
       (respond_json (JObj []), example_person ''C''), (offline, example_person ''D''),
       (offline, example_person ''E''), (offline, example_person ''F'')]
      (new_UserManager ''https://api.example.com'')) =
     \<lparr>apiBaseUrl = ''https://api.example.com'',
      people = [example_person ''A'', example_person ''B'', example_person ''C'',
                example_person ''D'', example_person ''E'']\<rparr>
   \<and> drop 5 (snd (addPerson_calls
      [(offline, example_person ''A''), (respond_status 500, example_person ''B''),
       (respond_json (JObj []), example_person ''C''), (offline, example_person ''D''),
       (offline, example_person ''E''), (offline, example_person ''F'')]
      (new_UserManager ''https://api.example.com''))) =
     [(Returned, [ConsoleWarn ''Cannot add more than 5 people.''])]"
  using addPerson_sequence [of
      "[(offline, example_person ''A''), (respond_status 500, example_person ''B''),
        (respond_json (JObj []), example_person ''C''), (offline, example_person ''D''),
        (offline, example_person ''E''), (offline, example_person ''F'')]"
      "''https://api.example.com''"]
  by simp



text \<open>
  Claim C6. \<^verbatim>\<open>savePersonToServer\<close> always returns, and so does \<^verbatim>\<open>addPerson\<close>:
  whatever the \<^verbatim>\<open>try\<close> block throws is caught and logged, and the state is as it was.
  A response that is not ok throws an \<open>Error\<close> whose message carries the status; a
  request that never completes throws the transport's error; both end as a logged line.
\<close>

theorem savePersonToServer_swallows:
  "fst (savePersonToServer net person um) = Returned
   \<and> fst (snd (savePersonToServer net person um)) = um
   \<and> fst (addPerson net person um) = Returned
   \<and> (savePersonToServer_try net person um = (Thrown e, evs) \<longrightarrow>
        savePersonToServer net person um =
          (Returned, um, evs @ [ConsoleError ''Failed to save user:'' e]))
   \<and> (person_payload person = Inr payload \<and>
        net (post_request um payload) = Resolved res \<and> \<not> ok res \<longrightarrow>
        savePersonToServer net person um =
          (Returned, um,
           [Fetch (post_request um payload),
            ConsoleError ''Failed to save user:''
              (Error (''Error saving person: '' @ Number_toString (status res)))]))
   \<and> (person_payload person = Inr payload \<and>
        net (post_request um payload) = Rejected msg \<longrightarrow>
        savePersonToServer net person um =
          (Returned, um,
           [Fetch (post_request um payload),
            ConsoleError ''Failed to save user:'' (FetchError msg)]))"
proof -
  have "savePersonToServer net person um =
          (Returned, um,
           [Fetch (post_request um payload),
            ConsoleError ''Failed to save user:''
              (Error (''Error saving person: '' @ Number_toString (status res)))])"
    if "person_payload person = Inr payload"
      "net (post_request um payload) = Resolved res" "\<not> ok res"
    using that by (simp add: savePersonToServer_def savePersonToServer_try_def)
  moreover have "savePersonToServer net person um =
          (Returned, um,
           [Fetch (post_request um payload),
            ConsoleError ''Failed to save user:'' (FetchError msg)])"
    if "person_payload person = Inr payload" "net (post_request um payload) = Rejected msg"
    using that by (simp add: savePersonToServer_def savePersonToServer_try_def)
  ultimately show ?thesis
    by (simp add: savePersonToServer_returns savePersonToServer_state addPerson_returns
        savePersonToServer_caught)
qed

theorem savePersonToServer_swallows_witness:
  "savePersonToServer (respond_status 500) (example_person ''Alex'')
     (new_UserManager ''https://api.example.com'') =
     (Returned, new_UserManager ''https://api.example.com'',
      [Fetch (post_request (new_UserManager ''https://api.example.com'')
                (JObj [(''name'', JStr ''Alex''), (''medications'', JArr [])])),
       ConsoleError ''Failed to save user:''
         (Error (''Error saving person: '' @ Number_toString 500))])
   \<and> savePersonToServer offline (example_person ''Alex'')
     (new_UserManager ''https://api.example.com'') =
     (Returned, new_UserManager ''https://api.example.com'',
      [Fetch (post_request (new_UserManager ''https://api.example.com'')
                (JObj [(''name'', JStr ''Alex''), (''medications'', JArr [])])),
       ConsoleError ''Failed to save user:'' (FetchError ''Failed to fetch'')])"
proof -
  have p: "person_payload (example_person ''Alex'') =
      Inr (JObj [(''name'', JStr ''Alex''), (''medications'', JArr [])])"
    by (simp add: person_payload_def example_person_def)
  show ?thesis
    using savePersonToServer_swallows [of "respond_status 500" "example_person ''Alex''"
        "new_UserManager ''https://api.example.com''" _ _
        "JObj [(''name'', JStr ''Alex''), (''medications'', JArr [])]"
        "\<lparr>ok = False, status = 500, json_body = None\<rparr>"]
      savePersonToServer_swallows [of offline "example_person ''Alex''"
        "new_UserManager ''https://api.example.com''" _ _
        "JObj [(''name'', JStr ''Alex''), (''medications'', JArr [])]" _ "''Failed to fetch''"]
    by (simp add: p respond_status_def offline_def)
qed

section \<open>UserManager: clearing\<close>

text \<open>
  Claim C4. \<^verbatim>\<open>clearAllDataOnServer\<close> empties \<^verbatim>\<open>people\<close> whenever the delete request
  completes, whatever the response's status; when the request never completes, the error
  is caught and logged and \<^verbatim>\<open>people\<close> is as it was.
\<close>

theorem clearAllDataOnServer_outcomes:
  "(net (delete_request um) = Resolved res \<longrightarrow>
      clearAllDataOnServer net um =
        (Returned, um\<lparr>people := []\<rparr>,
         [Fetch (delete_request um), ConsoleLog ''All user data cleared on server'']))
   \<and> (net (delete_request um) = Rejected msg \<longrightarrow>
      clearAllDataOnServer net um =
        (Returned, um,
         [Fetch (delete_request um),
          ConsoleError ''Failed to clear data:'' (FetchError msg)]))"
  by (simp add: clearAllDataOnServer_def)

theorem clearAllDataOnServer_outcomes_witness:
  "people (fst (snd (clearAllDataOnServer (respond_status 500)
      \<lparr>apiBaseUrl = ''https://api.example.com'',
       people = [example_person ''Alex'', example_person ''Sam'']\<rparr>))) = []
   \<and> people (fst (snd (clearAllDataOnServer (respond_json JNull)
      \<lparr>apiBaseUrl = ''https://api.example.com'',
       people = [example_person ''Alex'', example_person ''Sam'']\<rparr>))) = []
   \<and> people (fst (snd (clearAllDataOnServer offline
      \<lparr>apiBaseUrl = ''https://api.example.com'',
       people = [example_person ''Alex'', example_person ''Sam'']\<rparr>))) =
     [example_person ''Alex'', example_person ''Sam'']"
  using clearAllDataOnServer_outcomes [of "respond_status 500"
      "\<lparr>apiBaseUrl = ''https://api.example.com'',
        people = [example_person ''Alex'', example_person ''Sam'']\<rparr>"
      "\<lparr>ok = False, status = 500, json_body = None\<rparr>"]
    clearAllDataOnServer_outcomes [of "respond_json JNull"
      "\<lparr>apiBaseUrl = ''https://api.example.com'',
        people = [example_person ''Alex'', example_person ''Sam'']\<rparr>"
      "\<lparr>ok = True, status = 200, json_body = Some JNull\<rparr>"]
    clearAllDataOnServer_outcomes [of offline
      "\<lparr>apiBaseUrl = ''https://api.example.com'',
        people = [example_person ''Alex'', example_person ''Sam'']\<rparr>" _ "''Failed to fetch''"]
  by (simp add: respond_status_def respond_json_def offline_def)

section \<open>UserManager: loading\<close>

lemma loadAllPeople_try_thrown:
  "loadAllPeople_try eng net um = (Thrown e, um', evs) \<Longrightarrow> um' = um"
  by (auto simp: loadAllPeople_try_def Let_def
      split: fetch_result.splits if_splits option.splits jsval.splits prod.splits sum.splits)

lemma loadAllPeople_caught:
  "loadAllPeople_try eng net um = (Thrown e, um', evs) \<Longrightarrow>
   loadAllPeople eng net um = (Returned, um, evs @ [ConsoleError ''Failed to load users:'' e])"
  using loadAllPeople_try_thrown [of eng net um e um' evs] by (simp add: loadAllPeople_def)

lemma loadAllPeople_success:
  assumes "net (get_request um) = Resolved res" "ok res" "json_body res = Some (JArr recs)"
    and "people_of_records eng recs = (Inr persons, evs)"
  shows "loadAllPeople eng net um =
     (Returned, um\<lparr>people := persons\<rparr>,
      Fetch (get_request um) # evs @ [ConsoleLogPeople ''Users loaded from API:'' persons])"
  using assms by (simp add: loadAllPeople_def loadAllPeople_try_def)

text \<open>
  Claim C7. Whatever the \<^verbatim>\<open>try\<close> block of \<^verbatim>\<open>loadAllPeople\<close> throws, the call
  returns with the error logged and the state exactly as it was. That is so when the
  request never completes, when the status is not a success, when the body is not JSON,
  when the body is not an array, and when building a person from a record throws.
\<close>

theorem loadAllPeople_atomic_on_error:
  "(loadAllPeople_try eng net um = (Thrown e, um', evs) \<longrightarrow>
      loadAllPeople eng net um =
        (Returned, um, evs @ [ConsoleError ''Failed to load users:'' e]))
   \<and> (net (get_request um) = Rejected msg \<longrightarrow>
      loadAllPeople eng net um =
        (Returned, um,
         [Fetch (get_request um), ConsoleError ''Failed to load users:'' (FetchError msg)]))
   \<and> (net (get_request um) = Resolved res \<and> \<not> ok res \<longrightarrow>
      loadAllPeople eng net um =
        (Returned, um,
         [Fetch (get_request um),
          ConsoleError ''Failed to load users:''
            (Error (''Error loading data: '' @ Number_toString (status res)))]))
   \<and> (net (get_request um) = Resolved res \<and> ok res \<and> json_body res = None \<longrightarrow>
      loadAllPeople eng net um =
        (Returned, um,
         [Fetch (get_request um), ConsoleError ''Failed to load users:'' SyntaxError]))
   \<and> (net (get_request um) = Resolved res \<and> ok res \<and> json_body res = Some data \<and>
       (\<forall>recs. data \<noteq> JArr recs) \<longrightarrow>
      loadAllPeople eng net um =
        (Returned, um,
         [Fetch (get_request um), ConsoleError ''Failed to load users:'' TypeError]))
   \<and> (net (get_request um) = Resolved res \<and> ok res \<and> json_body res = Some (JArr recs) \<and>
       people_of_records eng recs = (Inl e, evs) \<longrightarrow>
      loadAllPeople eng net um =
        (Returned, um,
         Fetch (get_request um) # evs @ [ConsoleError ''Failed to load users:'' e]))"
proof -
  have c1: "loadAllPeople eng net um =
        (Returned, um, evs @ [ConsoleError ''Failed to load users:'' e])"
    if "loadAllPeople_try eng net um = (Thrown e, um', evs)"
    using that by (rule loadAllPeople_caught)
  have c2: "loadAllPeople eng net um =
        (Returned, um,
         [Fetch (get_request um), ConsoleError ''Failed to load users:'' (FetchError msg)])"
    if "net (get_request um) = Rejected msg"
    using that by (simp add: loadAllPeople_def loadAllPeople_try_def)
  have c3: "loadAllPeople eng net um =
        (Returned, um,
         [Fetch (get_request um),
          ConsoleError ''Failed to load users:''
            (Error (''Error loading data: '' @ Number_toString (status res)))])"
    if "net (get_request um) = Resolved res" "\<not> ok res"
    using that by (simp add: loadAllPeople_def loadAllPeople_try_def)
  have c4: "loadAllPeople eng net um =
        (Returned, um,
         [Fetch (get_request um), ConsoleError ''Failed to load users:'' SyntaxError])"
    if "net (get_request um) = Resolved res" "ok res" "json_body res = None"
    using that by (simp add: loadAllPeople_def loadAllPeople_try_def)
  have c5: "loadAllPeople eng net um =
        (Returned, um,
         [Fetch (get_request um), ConsoleError ''Failed to load users:'' TypeError])"
    if "net (get_request um) = Resolved res" "ok res" "json_body res = Some data"
      "\<forall>recs. data \<noteq> JArr recs"
    using that by (cases data) (simp_all add: loadAllPeople_def loadAllPeople_try_def)
  have c6: "loadAllPeople eng net um =
        (Returned, um,
         Fetch (get_request um) # evs @ [ConsoleError ''Failed to load users:'' e])"
    if "net (get_request um) = Resolved res" "ok res" "json_body res = Some (JArr recs)"
      "people_of_records eng recs = (Inl e, evs)"
    using that by (simp add: loadAllPeople_def loadAllPeople_try_def)
  from c1 c2 c3 c4 c5 c6 show ?thesis by blast
qed

theorem loadAllPeople_atomic_on_error_witness:
  "fst (snd (loadAllPeople example_engine (respond_status 503)
      \<lparr>apiBaseUrl = ''https://api.example.com'', people = [example_person ''Alex'']\<rparr>)) =
     \<lparr>apiBaseUrl = ''https://api.example.com'', people = [example_person ''Alex'']\<rparr>
   \<and> fst (snd (loadAllPeople example_engine offline
      \<lparr>apiBaseUrl = ''https://api.example.com'', people = [example_person ''Alex'']\<rparr>)) =
     \<lparr>apiBaseUrl = ''https://api.example.com'', people = [example_person ''Alex'']\<rparr>
   \<and> fst (snd (loadAllPeople example_engine
        (respond_json (JArr [example_person_record ''Sam'' [], JNull]))
      \<lparr>apiBaseUrl = ''https://api.example.com'', people = [example_person ''Alex'']\<rparr>)) =
     \<lparr>apiBaseUrl = ''https://api.example.com'', people = [example_person ''Alex'']\<rparr>"
proof -
  have r: "people_of_records example_engine [example_person_record ''Sam'' [], JNull] =
      (Inl TypeError, [])"
    by (simp add: person_of_record_def example_person_record_def)
  note a = loadAllPeople_atomic_on_error [of example_engine "respond_status 503"
        "\<lparr>apiBaseUrl = ''https://api.example.com'', people = [example_person ''Alex'']\<rparr>"
        _ _ _ _ "\<lparr>ok = False, status = 503, json_body = None\<rparr>",
        THEN conjunct2, THEN conjunct2, THEN conjunct1]
  note b = loadAllPeople_atomic_on_error [of example_engine offline
        "\<lparr>apiBaseUrl = ''https://api.example.com'', people = [example_person ''Alex'']\<rparr>"
        _ _ _ "''Failed to fetch''", THEN conjunct2, THEN conjunct1]
  note c = loadAllPeople_atomic_on_error [of example_engine
        "respond_json (JArr [example_person_record ''Sam'' [], JNull])"
        "\<lparr>apiBaseUrl = ''https://api.example.com'', people = [example_person ''Alex'']\<rparr>"
        TypeError _ "[]" _
        "\<lparr>ok = True, status = 200,
          json_body = Some (JArr [example_person_record ''Sam'' [], JNull])\<rparr>"
        _ "[example_person_record ''Sam'' [], JNull]",
        THEN conjunct2, THEN conjunct2, THEN conjunct2, THEN conjunct2, THEN conjunct2]
  have c': "loadAllPeople example_engine
        (respond_json (JArr [example_person_record ''Sam'' [], JNull]))
        \<lparr>apiBaseUrl = ''https://api.example.com'', people = [example_person ''Alex'']\<rparr> =
      (Returned,
       \<lparr>apiBaseUrl = ''https://api.example.com'', people = [example_person ''Alex'']\<rparr>,
       Fetch (get_request
           \<lparr>apiBaseUrl = ''https://api.example.com'', people = [example_person ''Alex'']\<rparr>) #
       [] @ [ConsoleError ''Failed to load users:'' TypeError])"
    by (rule c [rule_format]) (simp add: r respond_json_def del: people_of_records.simps)
  show ?thesis
    using a b c' by (simp add: respond_status_def offline_def)
qed

text \<open>The records of a well-formed response: every medication record gives a medication,
  the loop attaches the first five and warns for each of the rest.\<close>

lemma medication_of_record_object:
  "is_object m \<Longrightarrow> \<exists>med. medication_of_record eng m = Inr med"
  by (cases m) (simp_all add: medication_of_record_def)

lemma attach_medications_general:
  "list_all is_object ms \<Longrightarrow> length (medications p) \<le> 5 \<Longrightarrow>
   \<exists>meds. map (medication_of_record eng) ms = map Inr meds \<and>
     attach_medications eng ms p =
       (Inr (p\<lparr>medications := take 5 (medications p @ meds)\<rparr>),
        replicate (length (medications p) + length ms - 5)
          (medications_full_warning (Person.name p)))"
proof (induction ms arbitrary: p)
  case Nil
  then show ?case by simp
next
  case (Cons m ms)
  from Cons.prems obtain med where med: "medication_of_record eng m = Inr med"
    using medication_of_record_object [of m eng] by auto
  show ?case
  proof (cases "length (medications p) = 5")
    case True
    then have step: "addMedication med p = (p, [medications_full_warning (Person.name p)])"
      by (simp add: addMedication_def medications_full_warning_def)
    from Cons.prems Cons.IH [of p] obtain meds where
      meds: "map (medication_of_record eng) ms = map Inr meds"
        "attach_medications eng ms p =
         (Inr (p\<lparr>medications := take 5 (medications p @ meds)\<rparr>),
          replicate (length (medications p) + length ms - 5)
            (medications_full_warning (Person.name p)))"
      by auto
    have "map (medication_of_record eng) (m # ms) = map Inr (med # meds)"
      by (simp add: med meds)
    moreover have "attach_medications eng (m # ms) p =
       (Inr (p\<lparr>medications := take 5 (medications p @ med # meds)\<rparr>),
        replicate (length (medications p) + length (m # ms) - 5)
          (medications_full_warning (Person.name p)))"
      using True by (simp add: med step meds flip: replicate_Suc)
    ultimately show ?thesis by blast
  next
    case False
    with Cons.prems have lt: "length (medications p) < 5" by simp
    define p' where "p' = p\<lparr>medications := medications p @ [med]\<rparr>"
    have step: "addMedication med p = (p', [])"
      using lt by (simp add: addMedication_def p'_def)
    have "length (medications p') \<le> 5" using lt by (simp add: p'_def)
    with Cons.prems Cons.IH [of p'] obtain meds where
      meds: "map (medication_of_record eng) ms = map Inr meds"
        "attach_medications eng ms p' =
         (Inr (p'\<lparr>medications := take 5 (medications p' @ meds)\<rparr>),
          replicate (length (medications p') + length ms - 5)
            (medications_full_warning (Person.name p')))"
      by auto
    have "map (medication_of_record eng) (m # ms) = map Inr (med # meds)"
      by (simp add: med meds)
    moreover have "attach_medications eng (m # ms) p =
       (Inr (p\<lparr>medications := take 5 (medications p @ med # meds)\<rparr>),
        replicate (length (medications p) + length (m # ms) - 5)
          (medications_full_warning (Person.name p)))"
      using lt by (simp add: med step meds) (simp add: p'_def take_Cons')
    ultimately show ?thesis by blast
  qed
qed

lemma person_of_record_shaped:
  assumes "person_shaped p"
  shows "\<exists>person. person_of_record eng p = (Inr person, excess_warnings p) \<and>
     Person.name person = record_name p \<and>
     map Inr (medications person) =
       map (medication_of_record eng) (take 5 (record_medications p))"
proof -
  from assms obtain kvs where p: "p = JObj kvs" by (cases p) (simp_all add: person_shaped_def)
  from assms obtain ms where ms: "get_prop p ''medications'' = Inr (JArr ms)"
    and objs: "list_all is_object ms"
    by (auto simp: person_shaped_def split: sum.splits jsval.splits)
  have rm: "record_medications p = ms" by (simp add: record_medications_def ms)
  obtain nm where nm: "get_prop p ''name'' = Inr nm" by (simp add: p)
  have rn: "record_name p = nm" by (simp add: record_name_def nm)
  have "length (medications (new_Person nm)) \<le> 5" by (simp add: new_Person_def)
  from attach_medications_general [OF objs this, of eng] obtain meds where
    meds: "map (medication_of_record eng) ms = map Inr meds"
      "attach_medications eng ms (new_Person nm) =
       (Inr \<lparr>Person.name = nm, medications = take 5 meds\<rparr>,
        replicate (length ms - 5) (medications_full_warning nm))"
    by (auto simp: new_Person_def)
  have "person_of_record eng p =
       (Inr \<lparr>Person.name = nm, medications = take 5 meds\<rparr>, excess_warnings p)"
    by (simp add: person_of_record_def nm ms meds rn rm excess_warnings_def)
  moreover have "map Inr (take 5 meds) = map (medication_of_record eng) (take 5 ms)"
    by (simp add: meds flip: take_map)
  ultimately show ?thesis by (simp add: rn rm)
qed

lemma people_of_records_shaped:
  "list_all person_shaped recs \<Longrightarrow>
   \<exists>persons. people_of_records eng recs = (Inr persons, concat (map excess_warnings recs)) \<and>
     map (\<lambda>p. fst (person_of_record eng p)) recs = map Inr persons \<and>
     map Person.name persons = map record_name recs \<and>
     map (\<lambda>q. map Inr (medications q)) persons =
       map (\<lambda>p. map (medication_of_record eng) (take 5 (record_medications p))) recs"
proof (induction recs)
  case Nil
  then show ?case by simp
next
  case (Cons r recs)
  from Cons.prems person_of_record_shaped [of r eng] obtain person where
    r: "person_of_record eng r = (Inr person, excess_warnings r)"
      "Person.name person = record_name r"
      "map Inr (medications person) =
         map (medication_of_record eng) (take 5 (record_medications r))"
    by auto
  from Cons obtain persons where
    ps: "people_of_records eng recs = (Inr persons, concat (map excess_warnings recs))"
      "map (\<lambda>p. fst (person_of_record eng p)) recs = map Inr persons"
      "map Person.name persons = map record_name recs"
      "map (\<lambda>q. map Inr (medications q)) persons =
        map (\<lambda>p. map (medication_of_record eng) (take 5 (record_medications p))) recs"
    by auto
  have "people_of_records eng (r # recs) =
      (Inr (person # persons), concat (map excess_warnings (r # recs)))"
    by (simp add: r ps)
  moreover have "map (\<lambda>p. fst (person_of_record eng p)) (r # recs) = map Inr (person # persons)"
    by (simp add: r ps)
  moreover have "map Person.name (person # persons) = map record_name (r # recs)"
    by (simp add: r ps)
  moreover have "map (\<lambda>q. map Inr (medications q)) (person # persons) =
        map (\<lambda>p. map (medication_of_record eng) (take 5 (record_medications p))) (r # recs)"
    by (simp add: r ps)
  ultimately show ?case by blast
qed





section \<open>The cap on the number of persons\<close>

lemma people_cap_kept_elsewhere:
  assumes "length (people um) \<le> 5"
  shows "length (people (fst (snd (addPerson net person um)))) \<le> 5"
    and "length (people (fst (snd (savePersonToServer net person um)))) \<le> 5"
    and "length (people (fst (snd (clearAllDataOnServer net um)))) \<le> 5"
    and "length (people (fst (snd (listAll eng um)))) \<le> 5"
proof -
  show "length (people (fst (snd (addPerson net person um)))) \<le> 5"
  proof (cases "length (people um) < 5")
    case True
    then show ?thesis by (simp add: addPerson_below_cap savePersonToServer_state)
  next
    case False
    with assms show ?thesis by (simp add: addPerson_at_cap)
  qed
  show "length (people (fst (snd (savePersonToServer net person um)))) \<le> 5"
    using assms by (simp add: savePersonToServer_state)
  show "length (people (fst (snd (clearAllDataOnServer net um)))) \<le> 5"
    using assms by (simp add: clearAllDataOnServer_def Let_def split: fetch_result.splits)
  show "length (people (fst (snd (listAll eng um)))) \<le> 5"
    using assms by (simp add: listAll_def)
qed

text \<open>
  Claim C1. \<^verbatim>\<open>addPerson\<close> refuses a sixth person, and \<^verbatim>\<open>savePersonToServer\<close>,
  \<^verbatim>\<open>clearAllDataOnServer\<close> and \<^verbatim>\<open>listAll\<close> keep the bound (lemma
  \<open>people_cap_kept_elsewhere\<close>), but \<^verbatim>\<open>loadAllPeople\<close> assigns the mapped response to
  \<^verbatim>\<open>people\<close> without the check: from a new manager, whose list is empty, a successful
  response with six records leaves six persons.
\<close>

theorem loadAllPeople_exceeds_people_cap:
  "length (people (new_UserManager ''https://api.example.com'')) = 0
   \<and> length (people (fst (snd (loadAllPeople example_engine
        (respond_json (JArr example_six_records))
        (new_UserManager ''https://api.example.com''))))) = 6"
proof -
  have shaped: "list_all person_shaped example_six_records"
    by (simp add: person_shaped_def example_person_record_def example_six_records_def)
  from people_of_records_shaped [OF shaped, of example_engine] obtain persons where
    ps: "people_of_records example_engine example_six_records =
        (Inr persons, concat (map excess_warnings example_six_records))"
      "map Person.name persons = map record_name example_six_records"
    by blast
  have "length persons = 6"
    using arg_cong [OF ps(2), of length] by (simp add: example_six_records_def)
  moreover have "loadAllPeople example_engine (respond_json (JArr example_six_records))
      (new_UserManager ''https://api.example.com'') =
     (Returned, (new_UserManager ''https://api.example.com'')\<lparr>people := persons\<rparr>,
      Fetch (get_request (new_UserManager ''https://api.example.com'')) #
      concat (map excess_warnings example_six_records) @
      [ConsoleLogPeople ''Users loaded from API:'' persons])"
    by (rule loadAllPeople_success [where res =
          "\<lparr>ok = True, status = 200, json_body = Some (JArr example_six_records)\<rparr>",
          OF _ _ _ ps(1)])
      (simp_all add: respond_json_def)
  ultimately show ?thesis by (simp add: new_UserManager_def)
qed

section \<open>Dates: the string of \<^verbatim>\<open>toISOString\<close> parses back\<close>

subsection \<open>Digits\<close>

lemma of_char_digit_char: "d < 10 \<Longrightarrow> (of_char (digit_char d) :: nat) = 48 + d"
  by (simp add: digit_char_def)

lemma digit_val_digit_char: "d < 10 \<Longrightarrow> digit_val (digit_char d) = Some d"
  by (simp add: digit_val_def of_char_digit_char)

lemma digit_char_not_sign:
  assumes "d < 10"
  shows "digit_char d \<noteq> CHR ''+''" and "digit_char d \<noteq> CHR ''-''"
proof -
  have "(of_char (digit_char d) :: nat) \<noteq> of_char CHR ''+''"
    using assms by (simp add: of_char_digit_char)
  then show "digit_char d \<noteq> CHR ''+''" by auto
  have "(of_char (digit_char d) :: nat) \<noteq> of_char CHR ''-''"
    using assms by (simp add: of_char_digit_char)
  then show "digit_char d \<noteq> CHR ''-''" by auto
qed

text \<open>Reading \<open>n\<close> digits from a string that starts with \<open>pad n k\<close> gives \<open>k\<close> back
  and leaves the rest.\<close>

lemma digits_pad:
  "k < 10 ^ n \<Longrightarrow> digits n acc (pad n k @ r) = Some (acc * 10 ^ n + k, r)"
proof (induction n arbitrary: k acc)
  case 0
  then show ?case by simp
next
  case (Suc n)
  from Suc.prems have q: "k div 10 ^ n < 10"
    by (simp add: less_mult_imp_div_less mult.commute)
  have m: "k mod 10 ^ n < 10 ^ n" by simp
  have "(acc * 10 + k div 10 ^ n) * 10 ^ n + k mod 10 ^ n = acc * 10 ^ Suc n + k"
  proof -
    have "k div 10 ^ n * 10 ^ n + k mod 10 ^ n = k" by (rule div_mult_mod_eq)
    then show ?thesis by (simp add: algebra_simps)
  qed
  with Suc.IH [OF m, of "acc * 10 + k div 10 ^ n"] show ?case
    by (simp add: digit_val_digit_char q)
qed

subsection \<open>Years and days\<close>

lemma div_bounds:
  fixes n k :: int
  assumes "0 < k"
  shows "k * (n div k) \<le> n" and "n \<le> k * (n div k) + (k - 1)"
proof -
  have "n = k * (n div k) + n mod k" by simp
  moreover have "0 \<le> n mod k" "n mod k < k" using assms by simp_all
  ultimately show "k * (n div k) \<le> n" and "n \<le> k * (n div k) + (k - 1)" by linarith+
qed

text \<open>\<open>DayFromYear y\<close> stays within two days of \<open>365.2425 * (y - 1970)\<close>; so the
  estimate in \<open>YearFromDay\<close> is off by one year at most, and \<open>YearFromDay d\<close> is the year
  whose days include \<open>d\<close>.\<close>

lemma DayFromYear_upper: "400 * DayFromYear y \<le> 146097 * (y - 1970) + 589"
proof -
  define a b c where "a = (y - 1969) div 4" and "b = (y - 1901) div 100"
    and "c = (y - 1601) div 400"
  have "4 * a \<le> y - 1969" "y - 1901 \<le> 100 * b + 99" "400 * c \<le> y - 1601"
    using div_bounds [of 4 "y - 1969"] div_bounds [of 100 "y - 1901"]
      div_bounds [of 400 "y - 1601"]
    by (simp_all add: a_def b_def c_def)
  then have "400 * (365 * (y - 1970) + a - b + c) \<le> 146097 * (y - 1970) + 589"
    by simp
  then show ?thesis by (simp only: DayFromYear_def a_def b_def c_def)
qed

lemma DayFromYear_lower: "146097 * (y - 1970) - 506 \<le> 400 * DayFromYear y"
proof -
  define a b c where "a = (y - 1969) div 4" and "b = (y - 1901) div 100"
    and "c = (y - 1601) div 400"
  have "y - 1969 \<le> 4 * a + 3" "100 * b \<le> y - 1901" "y - 1601 \<le> 400 * c + 399"
    using div_bounds [of 4 "y - 1969"] div_bounds [of 100 "y - 1901"]
      div_bounds [of 400 "y - 1601"]
    by (simp_all add: a_def b_def c_def)
  then have "146097 * (y - 1970) - 506 \<le> 400 * (365 * (y - 1970) + a - b + c)"
    by simp
  then show ?thesis by (simp only: DayFromYear_def a_def b_def c_def)
qed

lemma YearFromDay_bounds:
  "DayFromYear (YearFromDay d) \<le> d \<and> d < DayFromYear (YearFromDay d + 1)"
proof -
  define x where "x = (400 * d) div 146097"
  have x1: "146097 * x \<le> 400 * d" and x2: "400 * d \<le> 146097 * x + 146096"
    using div_bounds [of 146097 "400 * d"] by (simp_all add: x_def)
  define D0 D3 where "D0 = DayFromYear (1970 + x - 1)" and "D3 = DayFromYear (1970 + x + 1 + 1)"
  have "400 * D0 \<le> 146097 * (x - 1) + 589"
    using DayFromYear_upper [of "1970 + x - 1"] by (simp add: D0_def)
  with x1 have lo: "D0 \<le> d" by simp
  have "146097 * (x + 2) - 506 \<le> 400 * D3"
    using DayFromYear_lower [of "1970 + x + 1 + 1"] by (simp add: D3_def)
  with x2 have hi: "d < D3" by simp
  show ?thesis
    unfolding YearFromDay_def Let_def x_def [symmetric]
    using lo hi by (auto simp: D0_def D3_def)
qed

text \<open>A year has 366 days when it is a leap year and 365 otherwise.\<close>

lemma div_step:
  fixes n k :: int
  assumes "0 < k"
  shows "(n + 1) div k = n div k + (if (n + 1) mod k = 0 then 1 else 0)"
proof -
  define q r where "q = n div k" and "r = n mod k"
  have n: "n = k * q + r" and r0: "0 \<le> r" and rk: "r < k"
    using assms by (simp_all add: q_def r_def)
  show ?thesis
  proof (cases "r + 1 = k")
    case True
    then have e: "n + 1 = k * (q + 1) + 0" using n by (simp add: algebra_simps)
    have "(n + 1) div k = q + 1"
      using e assms by simp
    moreover have "(n + 1) mod k = 0"
      using e assms by simp
    ultimately show ?thesis by (simp add: q_def)
  next
    case False
    with rk have lt: "r + 1 < k" by simp
    have e: "n + 1 = k * q + (r + 1)" using n by simp
    have r1: "0 \<le> r + 1" using r0 by simp
    have "(n + 1) div k = q"
      using e r1 lt by (rule int_div_pos_eq)
    moreover have "(n + 1) mod k = r + 1"
      using e r1 lt by (rule int_mod_pos_eq)
    ultimately show ?thesis using r0 by (simp add: q_def)
  qed
qed

lemma mod_shift:
  fixes y :: int
  shows "(y - 1968) mod 4 = y mod 4" and "(y - 1900) mod 100 = y mod 100"
    and "(y - 1600) mod 400 = y mod 400"
proof -
  have "(y - 1968) mod 4 = (y + 4 * (- 492)) mod 4" by simp
  also have "\<dots> = y mod 4" by (rule mod_mult_self2)
  finally show "(y - 1968) mod 4 = y mod 4" .
  have "(y - 1900) mod 100 = (y + 100 * (- 19)) mod 100" by simp
  also have "\<dots> = y mod 100" by (rule mod_mult_self2)
  finally show "(y - 1900) mod 100 = y mod 100" .
  have "(y - 1600) mod 400 = (y + 400 * (- 4)) mod 400" by simp
  also have "\<dots> = y mod 400" by (rule mod_mult_self2)
  finally show "(y - 1600) mod 400 = y mod 400" .
qed

lemma leap_divisors:
  fixes y :: int
  shows "y mod 400 = 0 \<Longrightarrow> y mod 100 = 0" and "y mod 100 = 0 \<Longrightarrow> y mod 4 = 0"
proof -
  assume "y mod 400 = 0"
  then have "400 dvd y" by (simp add: mod_eq_0_iff_dvd)
  moreover have "(100::int) dvd 400" by simp
  ultimately have "100 dvd y" by (rule dvd_trans [rotated])
  then show "y mod 100 = 0" by (simp add: mod_eq_0_iff_dvd)
next
  assume "y mod 100 = 0"
  then have "100 dvd y" by (simp add: mod_eq_0_iff_dvd)
  moreover have "(4::int) dvd 100" by simp
  ultimately have "4 dvd y" by (rule dvd_trans [rotated])
  then show "y mod 4 = 0" by (simp add: mod_eq_0_iff_dvd)
qed

lemma DaysInYear:
  "DayFromYear (y + 1) = DayFromYear y + (if InLeapYear y then 366 else 365)"
proof -
  have a: "(y + 1 - 1969) div 4 = (y - 1969) div 4 + (if y mod 4 = 0 then 1 else 0)"
    using div_step [of 4 "y - 1969"] mod_shift(1) [of y] by (simp add: algebra_simps)
  have b: "(y + 1 - 1901) div 100 = (y - 1901) div 100 + (if y mod 100 = 0 then 1 else 0)"
    using div_step [of 100 "y - 1901"] mod_shift(2) [of y] by (simp add: algebra_simps)
  have c: "(y + 1 - 1601) div 400 = (y - 1601) div 400 + (if y mod 400 = 0 then 1 else 0)"
    using div_step [of 400 "y - 1601"] mod_shift(3) [of y] by (simp add: algebra_simps)
  show ?thesis
    unfolding DayFromYear_def a b c InLeapYear_def
    using leap_divisors [of y] by auto
qed

text \<open>Hours, minutes, seconds and milliseconds make up the time within the day.\<close>

lemma time_within_day_roundtrip:
  fixes s :: int
  shows "s div 3600000 * 3600000 + (s div 60000) mod 60 * 60000 + (s div 1000) mod 60 * 1000
      + s mod 1000 = s"
proof -
  have a: "s div 60000 = (s div 1000) div 60"
    using zdiv_zmult2_eq [of 60 s 1000] by simp
  have b: "s div 3600000 = (s div 60000) div 60"
    using zdiv_zmult2_eq [of 60 s 60000] by simp
  define p q r where "p = s div 1000" and "q = s div 60000" and "r = s div 3600000"
  have "s = 1000 * p + s mod 1000" by (simp add: p_def)
  moreover have "p = 60 * q + p mod 60"
    unfolding p_def q_def a by simp
  moreover have "q = 60 * r + q mod 60"
    unfolding q_def r_def b by simp
  ultimately have "r * 3600000 + q mod 60 * 60000 + p mod 60 * 1000 + s mod 1000 = s"
    by linarith
  then show ?thesis by (simp only: p_def q_def r_def)
qed

text \<open>The month found for a day of the year contains that day, and has at most 31 days.\<close>

lemma month_start_values:
  "month_start leap 0 = 0" "month_start leap 1 = 31"
  "month_start leap 2 = 59 + (if leap then 1 else 0)"
  "month_start leap 3 = 90 + (if leap then 1 else 0)"
  "month_start leap 4 = 120 + (if leap then 1 else 0)"
  "month_start leap 5 = 151 + (if leap then 1 else 0)"
  "month_start leap 6 = 181 + (if leap then 1 else 0)"
  "month_start leap 7 = 212 + (if leap then 1 else 0)"
  "month_start leap 8 = 243 + (if leap then 1 else 0)"
  "month_start leap 9 = 273 + (if leap then 1 else 0)"
  "month_start leap 10 = 304 + (if leap then 1 else 0)"
  "month_start leap 11 = 334 + (if leap then 1 else 0)"
  "month_start leap 12 = 365 + (if leap then 1 else 0)"
  "month_start leap (Suc 0) = 31"
  "month_start leap (Suc (Suc 0)) = 59 + (if leap then 1 else 0)"
  by (simp_all add: month_start_def)

lemma MonthFromDay_bounds:
  assumes "0 \<le> dy" "dy < (if leap then 366 else 365)"
  shows "MonthFromDay leap dy \<le> 11"
    and "month_start leap (MonthFromDay leap dy) \<le> dy"
    and "dy < month_start leap (MonthFromDay leap dy + 1)"
    and "dy - month_start leap (MonthFromDay leap dy) \<le> 30"
  using assms
  by (auto simp: MonthFromDay_def month_start_values split: if_splits)

text \<open>A time value in the range of \<^verbatim>\<open>Date\<close> has a year of at most six digits.\<close>

lemma Day_range:
  assumes "\<bar>t\<bar> \<le> 8640000000000000"
  shows "- 100000000 \<le> Day t" and "Day t \<le> 100000000"
proof -
  have "(- 8640000000000000) div 86400000 \<le> t div (86400000::int)"
    using assms by (intro zdiv_mono1) simp_all
  then show "- 100000000 \<le> Day t" by (simp add: Day_def msPerDay_def)
  have "t div (86400000::int) \<le> 8640000000000000 div 86400000"
    using assms by (intro zdiv_mono1) simp_all
  then show "Day t \<le> 100000000" by (simp add: Day_def msPerDay_def)
qed

lemma YearFromDay_range:
  assumes "- 100000000 \<le> d" "d \<le> 100000000"
  shows "- 999999 \<le> YearFromDay d" and "YearFromDay d \<le> 999999"
proof -
  define Y where "Y = YearFromDay d"
  define D0 D1 where "D0 = DayFromYear Y" and "D1 = DayFromYear (Y + 1)"
  have b: "D0 \<le> d" "d < D1"
    using YearFromDay_bounds [of d] by (simp_all add: Y_def D0_def D1_def)
  have l: "146097 * (Y - 1970) - 506 \<le> 400 * D0"
    using DayFromYear_lower [of Y] by (simp add: D0_def)
  have u: "400 * D1 \<le> 146097 * (Y - 1969) + 589"
    using DayFromYear_upper [of "Y + 1"] by (simp add: D1_def)
  from b(1) l assms(2) have "Y \<le> 999999" by simp
  moreover from b(2) u assms(1) have "- 999999 \<le> Y" by simp
  ultimately show "- 999999 \<le> YearFromDay d" and "YearFromDay d \<le> 999999"
    by (simp_all add: Y_def)
qed

text \<open>The year, written with four digits or with a sign and six digits, parses back.\<close>

lemma pad_head:
  "0 < n \<Longrightarrow> pad n k = digit_char (k div 10 ^ (n - 1)) # pad (n - 1) (k mod 10 ^ (n - 1))"
  by (cases n) simp_all

lemma parse_year_unsigned:
  "s = c # r' \<Longrightarrow> c \<noteq> CHR ''+'' \<Longrightarrow> c \<noteq> CHR ''-'' \<Longrightarrow>
   parse_year s = (case digits 4 0 s of None \<Rightarrow> None | Some (y, r) \<Rightarrow> Some (int y, r))"
  by (simp add: parse_year_def)

lemma parse_year_string:
  assumes "- 999999 \<le> y" "y \<le> 999999"
  shows "parse_year (year_string y @ r) = Some (y, r)"
proof -
  consider "0 \<le> y \<and> y \<le> 9999" | "y < 0" | "9999 < y" by linarith
  then show ?thesis
  proof cases
    case 1
    define k where "k = nat y"
    have k: "k < 10 ^ 4" using 1 by (simp add: k_def nat_less_iff)
    then have q: "k div 10 ^ 3 < 10" by simp
    have h: "pad 4 k @ r = digit_char (k div 10 ^ 3) # (pad 3 (k mod 10 ^ 3) @ r)"
      using pad_head [of 4 k] by simp
    have "parse_year (pad 4 k @ r) =
        (case digits 4 0 (pad 4 k @ r) of None \<Rightarrow> None | Some (y, r) \<Rightarrow> Some (int y, r))"
      using h digit_char_not_sign [OF q] by (rule parse_year_unsigned)
    also have "\<dots> = Some (int k, r)"
      using digits_pad [OF k, of 0 r] by simp
    finally show ?thesis using 1 by (simp add: year_string_def k_def)
  next
    case 2
    define k where "k = nat (- y)"
    have k: "k < 10 ^ 6" using 2 assms by (simp add: k_def nat_less_iff)
    have k0: "k \<noteq> 0" using 2 by (simp add: k_def)
    have "parse_year (CHR ''-'' # pad 6 k @ r) = Some (- int k, r)"
      using digits_pad [OF k, of 0 r] k0 by (simp add: parse_year_def)
    then show ?thesis using 2 by (simp add: year_string_def k_def)
  next
    case 3
    define k where "k = nat y"
    have k: "k < 10 ^ 6" using 3 assms by (simp add: k_def nat_less_iff)
    have "parse_year (CHR ''+'' # pad 6 k @ r) = Some (int k, r)"
      using digits_pad [OF k, of 0 r] by (simp add: parse_year_def)
    then show ?thesis using 3 by (simp add: year_string_def k_def)
  qed
qed

text \<open>The fields that \<^verbatim>\<open>toISOString\<close> prints are in their ranges, and \<open>MakeDate\<close>,
  \<open>MakeDay\<close> and \<open>MakeTime\<close> put the time value together again from them.\<close>

lemma time_fields:
  shows "0 \<le> HourFromTime t" "HourFromTime t \<le> 23"
    and "0 \<le> MinFromTime t" "MinFromTime t \<le> 59"
    and "0 \<le> SecFromTime t" "SecFromTime t \<le> 59"
    and "0 \<le> msFromTime t" "msFromTime t \<le> 999"
proof -
  define s where "s = TimeWithinDay t"
  have s: "0 \<le> s" "s < 86400000" by (simp_all add: s_def TimeWithinDay_def msPerDay_def)
  define h where "h = s div 3600000"
  have "3600000 * h \<le> s" "s \<le> 3600000 * h + (3600000 - 1)"
    using div_bounds [of 3600000 s] by (simp_all add: h_def)
  with s have "0 \<le> h" "h \<le> 23" by simp_all
  then show "0 \<le> HourFromTime t" "HourFromTime t \<le> 23"
    by (simp_all add: HourFromTime_def h_def s_def)
  show "0 \<le> MinFromTime t" "MinFromTime t \<le> 59"
    using pos_mod_bound [of 60 "TimeWithinDay t div 60000"]
    by (simp_all add: MinFromTime_def)
  show "0 \<le> SecFromTime t" "SecFromTime t \<le> 59"
    using pos_mod_bound [of 60 "TimeWithinDay t div 1000"]
    by (simp_all add: SecFromTime_def)
  show "0 \<le> msFromTime t" "msFromTime t \<le> 999"
    using pos_mod_bound [of 1000 "TimeWithinDay t"]
    by (simp_all add: msFromTime_def)
qed

lemma MakeTime_fields:
  "MakeTime (nat (HourFromTime t)) (nat (MinFromTime t)) (nat (SecFromTime t))
     (nat (msFromTime t)) = TimeWithinDay t"
proof -
  have "int (nat (HourFromTime t)) = HourFromTime t" "int (nat (MinFromTime t)) = MinFromTime t"
    "int (nat (SecFromTime t)) = SecFromTime t" "int (nat (msFromTime t)) = msFromTime t"
    using time_fields [of t] by simp_all
  then have "MakeTime (nat (HourFromTime t)) (nat (MinFromTime t)) (nat (SecFromTime t))
     (nat (msFromTime t)) =
     HourFromTime t * 3600000 + MinFromTime t * 60000 + SecFromTime t * 1000 + msFromTime t"
    by (simp only: MakeTime_def)
  also have "\<dots> = TimeWithinDay t"
    unfolding HourFromTime_def MinFromTime_def SecFromTime_def msFromTime_def
    by (rule time_within_day_roundtrip)
  finally show ?thesis .
qed

lemma DayWithinYear_bounds:
  "0 \<le> DayWithinYear t"
  "DayWithinYear t < (if InLeapYear (YearFromTime t) then 366 else 365)"
proof -
  define Y where "Y = YearFromDay (Day t)"
  have b: "DayFromYear Y \<le> Day t" "Day t < DayFromYear (Y + 1)"
    using YearFromDay_bounds [of "Day t"] by (simp_all add: Y_def)
  show "0 \<le> DayWithinYear t"
    using b(1) by (simp add: DayWithinYear_def YearFromTime_def Y_def)
  have "Day t - DayFromYear Y < (if InLeapYear Y then 366 else 365)"
    using b(2) unfolding DaysInYear [of Y] by (simp split: if_splits)
  then show "DayWithinYear t < (if InLeapYear (YearFromTime t) then 366 else 365)"
    by (simp only: DayWithinYear_def YearFromTime_def Y_def)
qed

lemma date_fields:
  shows "MonthFromTime t \<le> 11"
    and "1 \<le> DateFromTime t"
    and "DateFromTime t \<le> DaysInMonth (YearFromTime t) (MonthFromTime t + 1)"
    and "DateFromTime t \<le> 31"
proof -
  define leap where "leap = InLeapYear (YearFromTime t)"
  define dy where "dy = DayWithinYear t"
  have dy: "0 \<le> dy" "dy < (if leap then 366 else 365)"
    using DayWithinYear_bounds [of t] by (simp_all only: dy_def leap_def)
  note m = MonthFromDay_bounds [OF dy]
  define mo where "mo = MonthFromDay leap dy"
  have mo: "MonthFromTime t = mo" by (simp only: MonthFromTime_def leap_def dy_def mo_def)
  have d: "DateFromTime t = dy - month_start leap mo + 1"
    by (simp only: DateFromTime_def mo leap_def dy_def)
  show "MonthFromTime t \<le> 11"
    using m(1) by (simp only: mo mo_def)
  show "1 \<le> DateFromTime t"
    using m(2) unfolding d mo_def by simp
  have "DaysInMonth (YearFromTime t) (MonthFromTime t + 1) =
      month_start leap (mo + 1) - month_start leap mo"
    by (simp add: DaysInMonth_def mo leap_def)
  then show "DateFromTime t \<le> DaysInMonth (YearFromTime t) (MonthFromTime t + 1)"
    using m(3) unfolding d mo_def by simp
  show "DateFromTime t \<le> 31"
    using m(4) unfolding d mo_def by simp
qed

lemma MakeDay_fields:
  "MakeDay (YearFromTime t) (MonthFromTime t + 1) (nat (DateFromTime t)) = Day t"
proof -
  have "int (nat (DateFromTime t)) = DateFromTime t"
    using date_fields(2) [of t] by simp
  then show ?thesis
    by (simp add: MakeDay_def DateFromTime_def DayWithinYear_def)
qed

lemma MakeDate_fields:
  "MakeDate (MakeDay (YearFromTime t) (MonthFromTime t + 1) (nat (DateFromTime t)))
     (MakeTime (nat (HourFromTime t)) (nat (MinFromTime t)) (nat (SecFromTime t))
        (nat (msFromTime t))) = t"
  unfolding MakeDay_fields MakeTime_fields
  by (simp add: MakeDate_def Day_def TimeWithinDay_def)

subsection \<open>The whole string\<close>

text \<open>For every time value in the range of \<^verbatim>\<open>Date\<close>, the string that
  \<^verbatim>\<open>toISOString\<close> gives parses back to the same time value.\<close>

lemma parse_iso_fields:
  assumes y: "- 999999 \<le> y" "y \<le> 999999"
    and mo: "1 \<le> mo" "mo \<le> 12"
    and d: "1 \<le> d" "int d \<le> DaysInMonth y mo" "d \<le> 31"
    and h: "h \<le> 23" and mi: "mi \<le> 59" and sc: "sc \<le> 59" and ms: "ms \<le> 999"
  shows "parse_iso (year_string y @ ''-'' @ pad 2 mo @ ''-'' @ pad 2 d @ ''T'' @ pad 2 h @ '':'' @
      pad 2 mi @ '':'' @ pad 2 sc @ ''.'' @ pad 3 ms @ ''Z'') =
    Some (MakeDate (MakeDay y mo d) (MakeTime h mi sc ms))"
proof -
  have lt: "mo < 10 ^ 2" "d < 10 ^ 2" "h < 10 ^ 2" "mi < 10 ^ 2" "sc < 10 ^ 2" "ms < 10 ^ 3"
    using mo d h mi sc ms by simp_all
  show ?thesis
    unfolding parse_iso_def
    using mo d h mi sc
    by (simp add: parse_year_string [OF y] digits_pad [OF lt(1)] digits_pad [OF lt(2)]
        digits_pad [OF lt(3)] digits_pad [OF lt(4)] digits_pad [OF lt(5)] digits_pad [OF lt(6)]
        expect_def)
qed

lemma parse_iso_toISOString:
  assumes "\<bar>t\<bar> \<le> 8640000000000000"
  shows "\<exists>s. toISOString (TimeValue t) = Inr s \<and> parse_iso s = Some t"
proof -
  have y: "- 999999 \<le> YearFromTime t" "YearFromTime t \<le> 999999"
    using YearFromDay_range [OF Day_range [OF assms]] by (simp_all add: YearFromTime_def)
  have mo: "1 \<le> MonthFromTime t + 1" "MonthFromTime t + 1 \<le> 12"
    using date_fields(1) [of t] by simp_all
  have d: "1 \<le> nat (DateFromTime t)"
    "int (nat (DateFromTime t)) \<le> DaysInMonth (YearFromTime t) (MonthFromTime t + 1)"
    "nat (DateFromTime t) \<le> 31"
    using date_fields(2-4) [of t] by simp_all
  have tm: "nat (HourFromTime t) \<le> 23" "nat (MinFromTime t) \<le> 59"
    "nat (SecFromTime t) \<le> 59" "nat (msFromTime t) \<le> 999"
    using time_fields [of t] by simp_all
  have "parse_iso (year_string (YearFromTime t) @ ''-'' @ pad 2 (MonthFromTime t + 1) @ ''-'' @
      pad 2 (nat (DateFromTime t)) @ ''T'' @ pad 2 (nat (HourFromTime t)) @ '':'' @
      pad 2 (nat (MinFromTime t)) @ '':'' @ pad 2 (nat (SecFromTime t)) @ ''.'' @
      pad 3 (nat (msFromTime t)) @ ''Z'') = Some t"
    unfolding parse_iso_fields [OF y mo d tm] MakeDate_fields ..
  then show ?thesis by (simp add: toISOString_def)
qed

lemma Date_parse_toISOString:
  assumes "\<bar>t\<bar> \<le> 8640000000000000" and "toISOString (TimeValue t) = Inr s"
  shows "Date_parse eng s = TimeValue t"
  using parse_iso_toISOString [OF assms(1)] assms
  by (auto simp: Date_parse_def TimeClip_def)

section \<open>The round trip through the write payload\<close>

text \<open>A JSON value is its own JSON reading; a storable medication is read back from its
  payload as it was, and so is a list of them, and a storable person.\<close>

lemma JSON_value_fixed:
  "is_JSON v \<Longrightarrow> JSON_value v = v"
  "are_JSON vs \<Longrightarrow> JSON_elements vs = vs"
  "properties_JSON kvs \<Longrightarrow> JSON_properties kvs = kvs"
  by (induction v and vs and kvs rule: is_JSON_are_JSON_properties_JSON.induct) auto

lemma medication_round_trip:
  assumes "storable_medication m"
  shows "\<exists>v. medication_payload m = Inr v \<and> is_object (JSON_value v) \<and>
     medication_of_record eng (JSON_value v) = Inr m"
proof -
  from assms obtain t where t: "refillDate m = TimeValue t" "\<bar>t\<bar> \<le> 8640000000000000"
    by (auto simp: storable_medication_def valid_Date_def split: jsdate.splits)
  from parse_iso_toISOString [OF t(2)] obtain s where
    s: "toISOString (TimeValue t) = Inr s" by blast
  have d: "Date_parse eng s = TimeValue t"
    using t(2) s by (rule Date_parse_toISOString)
  define v where "v = JObj [(''name'', Medication.name m),
      (''frequencyPerDay'', frequencyPerDay m), (''taken'', taken m), (''refillDate'', JStr s)]"
  have p: "medication_payload m = Inr v"
    by (simp add: medication_payload_def t(1) s v_def)
  have tk: "taken m \<noteq> JUndefined" "JSON_value (taken m) = taken m"
    using assms by (auto simp: storable_medication_def JSON_value_fixed)
  have nm: "Medication.name m = JUndefined \<or> JSON_value (Medication.name m) = Medication.name m"
    using assms by (auto simp: storable_medication_def survives_JSON_def JSON_value_fixed)
  have fr: "frequencyPerDay m = JUndefined \<or> JSON_value (frequencyPerDay m) = frequencyPerDay m"
    using assms by (auto simp: storable_medication_def survives_JSON_def JSON_value_fixed)
  have o: "is_object (JSON_value v)" by (simp add: v_def)
  have "medication_of_record eng (JSON_value v) =
      Inr \<lparr>Medication.name = Medication.name m, frequencyPerDay = frequencyPerDay m,
        taken = taken m, refillDate = TimeValue t\<rparr>"
    using nm fr tk by (auto simp: v_def medication_of_record_def new_Medication_def d)
  then have "medication_of_record eng (JSON_value v) = Inr m"
    using t(1) by simp
  with p o show ?thesis by blast
qed

lemma medications_round_trip:
  "list_all storable_medication ms \<Longrightarrow>
   \<exists>vs. medication_payloads ms = Inr vs \<and> list_all is_object (JSON_elements vs) \<and>
     map (medication_of_record eng) (JSON_elements vs) = map Inr ms"
proof (induction ms)
  case Nil
  then show ?case by simp
next
  case (Cons m ms)
  from Cons.prems medication_round_trip [of m eng] obtain v where
    v: "medication_payload m = Inr v" "is_object (JSON_value v)"
      "medication_of_record eng (JSON_value v) = Inr m"
    by auto
  from Cons obtain vs where
    vs: "medication_payloads ms = Inr vs" "list_all is_object (JSON_elements vs)"
      "map (medication_of_record eng) (JSON_elements vs) = map Inr ms"
    by auto
  have "medication_payloads (m # ms) = Inr (v # vs)" by (simp add: v vs)
  moreover have "list_all is_object (JSON_elements (v # vs))" by (simp add: v vs)
  moreover have "map (medication_of_record eng) (JSON_elements (v # vs)) = map Inr (m # ms)"
    by (simp add: v vs)
  ultimately show ?case by blast
qed

lemma person_round_trip_record:
  assumes "storable_person p"
  shows "\<exists>payload. person_payload p = Inr payload \<and>
     person_of_record eng (JSON_value payload) = (Inr p, [])"
proof -
  from assms have ms: "list_all storable_medication (medications p)"
    and len: "length (medications p) \<le> 5"
    and nm: "Person.name p = JUndefined \<or> JSON_value (Person.name p) = Person.name p"
    by (auto simp: storable_person_def survives_JSON_def JSON_value_fixed)
  from medications_round_trip [OF ms, of eng] obtain vs where
    vs: "medication_payloads (medications p) = Inr vs" "list_all is_object (JSON_elements vs)"
      "map (medication_of_record eng) (JSON_elements vs) = map Inr (medications p)"
    by blast
  define payload where "payload = JObj [(''name'', Person.name p), (''medications'', JArr vs)]"
  define r where "r = JSON_value payload"
  have pl: "person_payload p = Inr payload"
    by (simp add: person_payload_def vs(1) payload_def)
  have l: "length (JSON_elements vs) = length (medications p)"
    using arg_cong [OF vs(3), of length] by simp
  have rm: "get_prop r ''medications'' = Inr (JArr (JSON_elements vs))"
    and rn: "record_name r = Person.name p" and ro: "is_object r"
    using nm by (auto simp: r_def payload_def record_name_def)
  have rms: "record_medications r = JSON_elements vs"
    by (simp add: record_medications_def rm)
  have "person_shaped r"
    by (simp add: person_shaped_def ro rm vs(2))
  from person_of_record_shaped [OF this, of eng] obtain person where
    person: "person_of_record eng r = (Inr person, excess_warnings r)"
      "Person.name person = record_name r"
      "map Inr (medications person) =
         map (medication_of_record eng) (take 5 (record_medications r))"
    by blast
  have "map Inr (medications person) = (map Inr (medications p) :: (js_error + Medication) list)"
    using person(3) len l by (simp add: rms vs(3))
  then have "medications person = medications p"
    by (simp add: inj_map_eq_map)
  with person(2) have "person = p" by (simp add: rn)
  moreover have "excess_warnings r = []"
    using len l by (simp add: excess_warnings_def rms)
  ultimately have "person_of_record eng (JSON_value payload) = (Inr p, [])"
    using person(1) by (simp add: r_def)
  with pl show ?thesis by blast
qed

lemma savePersonToServer_sends:
  assumes "person_payload p = Inr payload"
  shows "\<exists>rest. snd (snd (savePersonToServer net p um)) = Fetch (post_request um payload) # rest"
  using assms
  by (auto simp: savePersonToServer_def savePersonToServer_try_def Let_def
      split: fetch_result.splits option.splits sum.splits)

text \<open>
  Claim C2, amended. Take a person with at most five medications whose name, and whose
  medications' names and frequencies, survive JSON, whose medications' \<^verbatim>\<open>taken\<close> are
  JSON values, and whose refill dates are valid dates. Then \<^verbatim>\<open>savePersonToServer\<close>
  builds a payload and sends it as the body of its request; the callback of
  \<^verbatim>\<open>loadAllPeople\<close> turns the record that this body denotes back into the very same
  person, without a warning: same name, the same medications in the same order, each with
  the same name, frequency, \<^verbatim>\<open>taken\<close> and the same time value as refill date; and a
  successful read response holding that record leaves \<^verbatim>\<open>people\<close> as that one person.
  As stated, for every person, the claim fails: a medication built from an unparseable
  refill date holds an invalid date, \<^verbatim>\<open>toISOString\<close> throws on it, and no payload is
  sent (the counterexample below); \<^verbatim>\<open>NaN\<close> reads back as \<^verbatim>\<open>null\<close> and an
  \<^verbatim>\<open>undefined\<close> \<^verbatim>\<open>taken\<close> as \<^verbatim>\<open>false\<close> (lemma \<open>values_outside_JSON_change\<close>).
\<close>

theorem person_round_trip:
  assumes "storable_person p"
  shows "\<exists>payload.
     person_payload p = Inr payload
     \<and> (\<exists>rest. snd (snd (savePersonToServer net p um)) = Fetch (post_request um payload) # rest)
     \<and> body (post_request um payload) = Some (JSON_value payload)
     \<and> person_of_record eng (JSON_value payload) = (Inr p, [])
     \<and> (net' (get_request um') = Resolved res \<and> ok res \<and>
         json_body res = Some (JArr [JSON_value payload]) \<longrightarrow>
          loadAllPeople eng net' um' =
            (Returned, um'\<lparr>people := [p]\<rparr>,
             [Fetch (get_request um'), ConsoleLogPeople ''Users loaded from API:'' [p]]))"
proof -
  from person_round_trip_record [OF assms, of eng] obtain payload where
    pl: "person_payload p = Inr payload"
      "person_of_record eng (JSON_value payload) = (Inr p, [])"
    by blast
  have por: "people_of_records eng [JSON_value payload] = (Inr [p], [])"
    by (simp add: pl(2))
  have load: "loadAllPeople eng net' um' =
            (Returned, um'\<lparr>people := [p]\<rparr>,
             [Fetch (get_request um'), ConsoleLogPeople ''Users loaded from API:'' [p]])"
    if a: "net' (get_request um') = Resolved res" and b: "ok res"
      and c: "json_body res = Some (JArr [JSON_value payload])"
  proof -
    have "loadAllPeople eng net' um' =
        (Returned, um'\<lparr>people := [p]\<rparr>,
         Fetch (get_request um') # [] @ [ConsoleLogPeople ''Users loaded from API:'' [p]])"
      using a b c por by (rule loadAllPeople_success)
    then show ?thesis by simp
  qed
  have sent: "\<exists>rest. snd (snd (savePersonToServer net p um)) =
      Fetch (post_request um payload) # rest"
    using pl(1) by (rule savePersonToServer_sends)
  have bd: "body (post_request um payload) = Some (JSON_value payload)"
    by (simp add: post_request_def)
  show ?thesis
  proof (intro exI [of _ payload] conjI impI)
    show "person_payload p = Inr payload" by (rule pl(1))
    show "\<exists>rest. snd (snd (savePersonToServer net p um)) =
        Fetch (post_request um payload) # rest" by (rule sent)
    show "body (post_request um payload) = Some (JSON_value payload)" by (rule bd)
    show "person_of_record eng (JSON_value payload) = (Inr p, [])" by (rule pl(2))
    show "loadAllPeople eng net' um' =
            (Returned, um'\<lparr>people := [p]\<rparr>,
             [Fetch (get_request um'), ConsoleLogPeople ''Users loaded from API:'' [p]])"
      if "net' (get_request um') = Resolved res \<and> ok res \<and>
         json_body res = Some (JArr [JSON_value payload])"
      using that load by blast
  qed
qed

theorem person_round_trip_witness:
  "storable_person example_stored_person
   \<and> (\<exists>payload. person_payload example_stored_person = Inr payload \<and>
        body (post_request (new_UserManager ''https://api.example.com'') payload) =
          Some (JSON_value payload) \<and>
        person_of_record example_engine (JSON_value payload) = (Inr example_stored_person, []))"
proof -
  have s: "storable_person example_stored_person"
    by (simp add: storable_person_def storable_medication_def survives_JSON_def valid_Date_def
        example_stored_person_def example_medication_def)
  from person_round_trip [OF s, of offline "new_UserManager ''https://api.example.com''"
      example_engine offline "new_UserManager ''https://api.example.com''"
      "\<lparr>ok = True, status = 200, json_body = None\<rparr>"]
  obtain payload where
    "person_payload example_stored_person = Inr payload"
    "body (post_request (new_UserManager ''https://api.example.com'') payload) =
          Some (JSON_value payload)"
    "person_of_record example_engine (JSON_value payload) = (Inr example_stored_person, [])"
    by blast
  with s show ?thesis by blast
qed

lemma digits_not_digit:
  "0 < n \<Longrightarrow> digit_val c = None \<Longrightarrow> digits n acc (c # s) = None"
  by (cases n) simp_all

lemma parse_iso_soon: "parse_iso ''soon'' = None"
proof -
  have "digit_val CHR ''s'' = None" by (simp add: digit_val_def)
  then have "digits 4 0 ''soon'' = None" by (simp add: digits_not_digit)
  then have "parse_year ''soon'' = None" by (simp add: parse_year_def)
  then show ?thesis by (simp add: parse_iso_def)
qed

theorem person_round_trip_counterexample:
  "length (medications example_person_invalid_refill) \<le> 5
   \<and> person_payload example_person_invalid_refill = Inl RangeError
   \<and> savePersonToServer (respond_json (JObj [])) example_person_invalid_refill
       (new_UserManager ''https://api.example.com'') =
     (Returned, new_UserManager ''https://api.example.com'',
      [ConsoleError ''Failed to save user:'' RangeError])"
proof -
  have d: "refillDate (new_Medication example_engine (JStr ''Aspirin'') (JNum 2) JUndefined
      (Value (JStr ''soon''))) = InvalidDate"
    by (simp add: new_Medication_def Date_parse_def parse_iso_soon example_engine_def)
  have p: "person_payload example_person_invalid_refill = Inl RangeError"
    by (simp add: person_payload_def example_person_invalid_refill_def medication_payload_def
        d toISOString_def)
  show ?thesis
    by (simp add: p savePersonToServer_def savePersonToServer_try_def)
      (simp add: example_person_invalid_refill_def)
qed

lemma values_outside_JSON_change:
  "medication_of_record eng
     (JSON_value (JObj [(''name'', JStr ''X''), (''frequencyPerDay'', JNaN),
        (''taken'', JUndefined), (''refillDate'', JStr s)])) =
   Inr \<lparr>Medication.name = JStr ''X'', frequencyPerDay = JNull, taken = JBool False,
        refillDate = Date_parse eng s\<rparr>"
  by (simp add: medication_of_record_def new_Medication_def)

end
